theory Spec2Isabelle
  imports Complex_Main "HOL-Library.AList"
begin

section \<open>JavaScript values and objects\<close>

text \<open>
  The popup controller of \<^verbatim>\<open>src/PopupStub.js\<close> works on plain JavaScript objects whose
  properties are read and written by name (\<^verbatim>\<open>popup[key] = value\<close>,
  \<^verbatim>\<open>popup.hasOwnProperty(key)\<close>). Values are therefore modelled dynamically.
  Numbers are rationals together with \<open>JNaN\<close>; the rounding of IEEE doubles and the
  infinities are outside the model. A function value is an opaque identity \<open>JFun n\<close>;
  \<open>JClosure id\<close> is the arrow function \<^verbatim>\<open>() => this.removePopupImmediately(id)\<close>
  that \<^verbatim>\<open>_beforeClosing\<close> creates.
\<close>

datatype jsval =
    JUndefined
  | JNull
  | JBool bool
  | JNum rat
  | JNaN
  | JStr string
  | JFun nat
  | JObj nat
  | JClosure jsval

datatype error = TypeError

text \<open>An object is its own properties in insertion order.\<close>

type_synonym obj = "(string \<times> jsval) list"

text \<open>A \<^verbatim>\<open>Map\<close> is its entries in insertion order.\<close>

type_synonym registry = "(jsval \<times> obj) list"

definition get :: "obj \<Rightarrow> string \<Rightarrow> jsval" where
  "get ob k = (case map_of ob k of Some v \<Rightarrow> v | None \<Rightarrow> JUndefined)"

definition put :: "string \<Rightarrow> jsval \<Rightarrow> obj \<Rightarrow> obj" where
  "put k v ob = AList.update k v ob"

definition hasOwnProperty :: "obj \<Rightarrow> string \<Rightarrow> bool" where
  "hasOwnProperty ob k = (k \<in> set (map fst ob))"

text \<open>The object spread \<^verbatim>\<open>{...base, ...src}\<close>: the properties of \<open>src\<close> are assigned in order.\<close>

definition spread :: "obj \<Rightarrow> obj \<Rightarrow> obj" where
  "spread base src = foldl (\<lambda>ob (k, v). put k v ob) base src"

text \<open>\<^verbatim>\<open>new Map(entries)\<close>: a later entry with the same key replaces the value in place.\<close>

definition new_Map :: "(jsval \<times> obj) list \<Rightarrow> registry" where
  "new_Map entries = foldl (\<lambda>m (k, v). AList.update k v m) [] entries"

fun truthy :: "jsval \<Rightarrow> bool" where
  "truthy JUndefined = False"
| "truthy JNull = False"
| "truthy (JBool b) = b"
| "truthy (JNum r) = (r \<noteq> 0)"
| "truthy JNaN = False"
| "truthy (JStr s) = (s \<noteq> [])"
| "truthy (JFun n) = True"
| "truthy (JObj n) = True"
| "truthy (JClosure v) = True"

text \<open>Strict equality \<^verbatim>\<open>===\<close>: \<^verbatim>\<open>NaN\<close> equals nothing, objects and functions by identity.\<close>

definition strict_eq :: "jsval \<Rightarrow> jsval \<Rightarrow> bool" where
  "strict_eq a b = (a \<noteq> JNaN \<and> a = b)"

text \<open>\<^verbatim>\<open>typeof v === 'string'\<close>\<close>

fun is_string :: "jsval \<Rightarrow> bool" where
  "is_string (JStr s) = True"
| "is_string v = False"

text \<open>
  Modelled from the spec: \<^verbatim>\<open>isFunction\<close> of \<^verbatim>\<open>util/shared\<close> is not among the sources; it
  is taken to be \<^verbatim>\<open>typeof v === 'function'\<close>, which is how every use of it guards a call.
\<close>

fun isFunction :: "jsval \<Rightarrow> bool" where
  "isFunction (JFun n) = True"
| "isFunction (JClosure v) = True"
| "isFunction v = False"

section \<open>Collaborators outside the source\<close>

text \<open>
  What the controller imports but the sources do not contain is a parameter:
  the factory \<^verbatim>\<open>createPopup(element, option, props)\<close>, the utility \<^verbatim>\<open>reverseKeyframes\<close>,
  the language's conversion of strings and objects to numbers (\<open>coerce\<close>), and the value a
  user's callback returns (\<open>callResult\<close>). The bodies of callbacks are not run by the model:
  an invocation is recorded in the trace.
\<close>

record env =
  createPopup :: "jsval \<Rightarrow> obj \<Rightarrow> obj \<Rightarrow> obj"
  reverseKeyframes :: "jsval \<Rightarrow> jsval"
  coerce :: "jsval \<Rightarrow> jsval"
  callResult :: "jsval \<Rightarrow> jsval list \<Rightarrow> jsval"

text \<open>\<^verbatim>\<open>ToNumber\<close>; the result is \<open>JNum r\<close> or stands for \<^verbatim>\<open>NaN\<close>.\<close>

fun to_number :: "env \<Rightarrow> jsval \<Rightarrow> jsval" where
  "to_number e JUndefined = JNaN"
| "to_number e JNull = JNum 0"
| "to_number e (JBool b) = JNum (if b then 1 else 0)"
| "to_number e (JNum r) = JNum r"
| "to_number e JNaN = JNaN"
| "to_number e v = coerce e v"

text \<open>\<^verbatim>\<open>a - b\<close>\<close>

definition js_sub :: "env \<Rightarrow> jsval \<Rightarrow> jsval \<Rightarrow> jsval" where
  "js_sub e a b =
     (case (to_number e a, to_number e b) of
        (JNum x, JNum y) \<Rightarrow> JNum (x - y)
      | _ \<Rightarrow> JNaN)"

text \<open>\<^verbatim>\<open>a / 2\<close>\<close>

definition js_half :: "env \<Rightarrow> jsval \<Rightarrow> jsval" where
  "js_half e a = (case to_number e a of JNum x \<Rightarrow> JNum (x / 2) | _ \<Rightarrow> JNaN)"

text \<open>
  \<^verbatim>\<open>Array.prototype.sort(cmp)\<close> as a stable insertion sort: \<open>a\<close> goes behind \<open>b\<close> exactly
  when \<^verbatim>\<open>cmp(a, b) > 0\<close>; a result that is not a positive number (also \<^verbatim>\<open>NaN\<close>) leaves
  \<open>a\<close> in front. Where the comparator returns \<^verbatim>\<open>NaN\<close> the order an engine produces is its
  own and may differ from this one; the theorems below use the sorted array only as a
  permutation of its input, or under comparisons of numbers.
\<close>

fun positive :: "jsval \<Rightarrow> bool" where
  "positive (JNum r) = (0 < r)"
| "positive v = False"

fun insort_js :: "('a \<Rightarrow> 'a \<Rightarrow> jsval) \<Rightarrow> 'a \<Rightarrow> 'a list \<Rightarrow> 'a list" where
  "insort_js cmp x [] = [x]"
| "insort_js cmp x (y # ys) =
     (if positive (cmp x y) then y # insort_js cmp x ys else x # y # ys)"

definition sort_js :: "('a \<Rightarrow> 'a \<Rightarrow> jsval) \<Rightarrow> 'a list \<Rightarrow> 'a list" where
  "sort_js cmp xs = foldr (insort_js cmp) xs []"

section \<open>The controller's state\<close>

text \<open>
  \<open>stub\<close>: whether the static \<^verbatim>\<open>PopupStub._stub\<close> points to the instance (it is \<^verbatim>\<open>null\<close>
  until \<^verbatim>\<open>PopupStub.init\<close>). \<open>orderId\<close>: the static counter \<^verbatim>\<open>PopupStub._orderId\<close>.
  \<open>popups\<close>: \<^verbatim>\<open>this.state.popups\<close>. \<open>timers\<close>: the pending \<^verbatim>\<open>setTimeout\<close> calls, each the
  function and its delay. \<open>trace\<close>: what the outside observes, in order: a \<open>Commit\<close> for
  every \<^verbatim>\<open>setState\<close> with the registry it commits, an \<open>Invoke\<close> for every callback called.
  \<^verbatim>\<open>setState\<close> is applied at once and its completion callback runs right after it.
  The calls of \<^verbatim>\<open>log\<close> only print and are left out.
\<close>

datatype event = Commit registry | Invoke jsval "jsval list"

record world =
  stub :: bool
  orderId :: nat
  props :: obj
  popups :: registry
  timers :: "(jsval \<times> jsval) list"
  trace :: "event list"

definition setState :: "registry \<Rightarrow> world \<Rightarrow> world" where
  "setState ps w = w\<lparr>popups := ps, trace := trace w @ [Commit ps]\<rparr>"

definition invoke :: "jsval \<Rightarrow> jsval list \<Rightarrow> world \<Rightarrow> world" where
  "invoke f args w = w\<lparr>trace := trace w @ [Invoke f args]\<rparr>"

definition invoke_all :: "jsval list \<Rightarrow> world \<Rightarrow> world" where
  "invoke_all fs w = w\<lparr>trace := trace w @ map (\<lambda>f. Invoke f []) fs\<rparr>"

section \<open>Removal\<close>

text \<open>\<^verbatim>\<open>removePopupImmediately(id)\<close>, lines 294-313.\<close>

definition removePopupImmediately :: "jsval \<Rightarrow> world \<Rightarrow> bool \<times> world" where
  "removePopupImmediately pid w =
     (case map_of (popups w) pid of
        Some popup \<Rightarrow>
          (let onClosed = get popup ''onClosed'';
               w1 = setState (AList.delete pid (popups w)) w
           in (True, if isFunction onClosed then invoke onClosed [] w1 else w1))
      | None \<Rightarrow> (False, w))"

text \<open>
  \<^verbatim>\<open>_beforeClosing(popup)\<close>, lines 225-253: the popup as mutated, and the timers it starts.
\<close>

definition beforeClosing :: "env \<Rightarrow> obj \<Rightarrow> obj \<times> (jsval \<times> jsval) list" where
  "beforeClosing e popup =
     (let pid = get popup ''id'';
          p1 = put ''delay'' (JNum 0) popup;
          p2 = put ''_closing'' (JBool True) p1;
          p3 = (if truthy (get p2 ''_maskAnimatable'')
                then (let q = put ''_maskAnimation'' (reverseKeyframes e (get p2 ''_maskAnimation'')) p2
                      in put ''_maskDelay'' (js_sub e (get q ''duration'') (get q ''maskDuration'')) q)
                else p2)
      in if \<not> truthy (get p3 ''closingAnimation'') \<and> is_string (get p3 ''animation'')
         then (let p4 = put ''direction'' (JStr ''reverse'') p3;
                   p5 = put ''closingAnimation'' (get p4 ''animation'') p4
               in (p5, [(JClosure pid,
                         if truthy (get p5 ''duration'') then get p5 ''duration'' else JNum 100)]))
         else (let p4 = put ''closingAnimation''
                          (if truthy (get p3 ''closingAnimation'') then get p3 ''closingAnimation''
                           else reverseKeyframes e (get p3 ''animation'')) p3
               in (put ''onAnimationEnd'' (JClosure pid) p4, [])))"

text \<open>\<^verbatim>\<open>removePopup(id, forceUpdate = true)\<close>, lines 263-285.\<close>

definition removePopup :: "env \<Rightarrow> jsval \<Rightarrow> bool \<Rightarrow> world \<Rightarrow> world" where
  "removePopup e pid forceUpdate w =
     (if \<not> truthy pid \<or> \<not> stub w then w
      else (case map_of (popups w) pid of
              None \<Rightarrow> w
            | Some popup \<Rightarrow>
                if truthy (get popup ''_closing'') then w
                else if \<not> truthy (get popup ''animation'') \<or> \<not> truthy (get popup ''visible'')
                then snd (removePopupImmediately pid w)
                else (let (popup', ts) = beforeClosing e popup;
                          w1 = w\<lparr>popups := AList.update pid popup' (popups w),
                                 timers := timers w @ ts\<rparr>
                      in if forceUpdate then setState (popups w1) w1 else w1)))"

text \<open>\<^verbatim>\<open>resetPopupProperty(id, key, value)\<close>, lines 323-333.\<close>

definition resetPopupProperty :: "jsval \<Rightarrow> string \<Rightarrow> jsval \<Rightarrow> world \<Rightarrow> world" where
  "resetPopupProperty pid key v w =
     (if \<not> truthy pid \<or> key = [] \<or> key = ''id'' \<or> hd key = CHR ''_'' then w
      else (case map_of (popups w) pid of
              None \<Rightarrow> w
            | Some popup \<Rightarrow>
                if hasOwnProperty popup key
                then setState (AList.update pid (put key v popup) (popups w)) w
                else w))"

text \<open>
  \<^verbatim>\<open>removeAll(filter)\<close>, lines 341-374. The argument is \<open>Some f\<close> when it is a function, \<open>f\<close>
  giving the truthiness of what it returns for a popup, and \<open>None\<close> otherwise.
\<close>

definition removeAll_js :: "(obj \<Rightarrow> bool) option \<Rightarrow> world \<Rightarrow> world" where
  "removeAll_js filt w =
     (if length (popups w) = 0 then w
      else (let vals = map snd (popups w) in
        case filt of
          Some f \<Rightarrow>
            (let funclist = map (\<lambda>ob. get ob ''onClosed'')
                              (filter (\<lambda>ob. f ob \<and> isFunction (get ob ''onClosed'')) vals);
                 kept = filter (\<lambda>ob. \<not> f ob) vals;
                 ps = new_Map (map (\<lambda>popup. (get popup ''id'', popup)) kept)
             in invoke_all funclist (setState ps w))
        | None \<Rightarrow>
            (let funclist = map (\<lambda>ob. get ob ''onClosed'')
                              (filter (\<lambda>ob. isFunction (get ob ''onClosed'')) vals)
             in invoke_all funclist (setState [] w))))"

section \<open>Adding\<close>

text \<open>\<^verbatim>\<open>_sortPopups(popups)\<close>, lines 158-167.\<close>

definition zIndex_cmp :: "env \<Rightarrow> jsval \<times> obj \<Rightarrow> jsval \<times> obj \<Rightarrow> jsval" where
  "zIndex_cmp e a b = js_sub e (get (snd a) ''zIndex'') (get (snd b) ''zIndex'')"

definition sortPopups :: "env \<Rightarrow> registry \<Rightarrow> registry" where
  "sortPopups e ps = (if 1 < length ps then new_Map (sort_js (zIndex_cmp e) ps) else ps)"

text \<open>
  \<^verbatim>\<open>PopupStub._orderId++\<close>, line 182. The counter is a double that starts at 0 and that
  nothing else changes, so it holds an integer of at most \<open>2 ^ 53\<close>: below that the
  increment is exact, and at \<open>2 ^ 53\<close> the sum rounds back to \<open>2 ^ 53\<close>.
\<close>

definition next_orderId :: "nat \<Rightarrow> nat" where
  "next_orderId n = (if n < 2 ^ 53 then Suc n else n)"

text \<open>The option object \<^verbatim>\<open>{_orderId: PopupStub._orderId++, ...option}\<close>, lines 181-184.\<close>

definition orderedOption :: "nat \<Rightarrow> obj \<Rightarrow> obj" where
  "orderedOption n option = spread [(''_orderId'', JNum (of_nat n))] option"

text \<open>
  The loop of lines 190-200 over the entries of the registry: at the first record that is
  not closing and has the new popup's \<^verbatim>\<open>zIndex\<close>, the new popup is delayed, the record is
  removed with \<^verbatim>\<open>removePopup(key, false)\<close>, and the loop ends.
\<close>

fun closeSameZIndex :: "env \<Rightarrow> registry \<Rightarrow> obj \<Rightarrow> world \<Rightarrow> obj \<times> world" where
  "closeSameZIndex e [] newPopup w = (newPopup, w)"
| "closeSameZIndex e ((key, popup) # rest) newPopup w =
     (if strict_eq (get popup ''zIndex'') (get newPopup ''zIndex'') \<and> \<not> truthy (get popup ''_closing'')
      then (let half = js_half e (get popup ''duration'')
            in (put ''delay'' half (put ''_maskDelay'' half newPopup), removePopup e key False w))
      else closeSameZIndex e rest newPopup w)"

text \<open>\<^verbatim>\<open>addPopup(element, option)\<close>, lines 177-219.\<close>

definition addPopup :: "env \<Rightarrow> jsval \<Rightarrow> obj \<Rightarrow> world \<Rightarrow> jsval \<times> world" where
  "addPopup e element option w =
     (if \<not> truthy element \<or> \<not> stub w then (JUndefined, w)
      else (let option' = orderedOption (orderId w) option;
                w0 = w\<lparr>orderId := next_orderId (orderId w)\<rparr>;
                created = createPopup e element option' (props w0);
                (newPopup, w1) = closeSameZIndex e (popups w0) created w0;
                ps = AList.update (get newPopup ''id'') newPopup (popups w1);
                w2 = setState (sortPopups e ps) (w1\<lparr>popups := ps\<rparr>);
                onAdded = get newPopup ''onAdded''
            in (get newPopup ''id'', if isFunction onAdded then invoke onAdded [] w2 else w2)))"

section \<open>The back button\<close>

text \<open>The comparator of lines 129-139.\<close>

definition back_cmp :: "env \<Rightarrow> obj \<Rightarrow> obj \<Rightarrow> jsval" where
  "back_cmp e a b =
     (if truthy (get b ''_closing'') \<or> \<not> truthy (get b ''visible'') then JNum 1
      else if truthy (get a ''_closing'') \<or> \<not> truthy (get a ''visible'') then JNum (- 1)
      else js_sub e (get a ''_orderId'') (get b ''_orderId''))"

text \<open>\<^verbatim>\<open>_onBackAndroid\<close>, lines 122-155: the value returned and the state, or the exception.\<close>

definition onBackAndroid :: "env \<Rightarrow> world \<Rightarrow> error + (jsval \<times> world)" where
  "onBackAndroid e w =
     (if length (popups w) = 0 then Inr (JBool False, w)
      else (let popup = last (sort_js (back_cmp e) (map snd (popups w))) in
        if truthy (get popup ''_closing'') \<or> \<not> truthy (get popup ''visible'')
        then Inr (JBool False, w)
        else if truthy (get popup ''autoClose'') \<and> truthy (get popup ''visible'')
        then Inr (JBool True, removePopup e (get popup ''id'') True w)
        else (let f = get popup ''onPressBack'' in
          if isFunction f
          then Inr (callResult e f [get popup ''id''], invoke f [get popup ''id''] w)
          else Inl TypeError)))"

section \<open>The static facade\<close>

text \<open>Lines 49-98. A method call on \<^verbatim>\<open>PopupStub.stub\<close> when it is \<^verbatim>\<open>null\<close> throws.\<close>

definition static_isShow :: "(obj \<Rightarrow> bool) \<Rightarrow> world \<Rightarrow> bool" where
  "static_isShow f w =
     (if \<not> stub w then False
      else list_ex (\<lambda>popup. truthy (get popup ''visible'') \<and> f popup) (map snd (popups w)))"

definition static_addPopup :: "env \<Rightarrow> jsval \<Rightarrow> obj \<Rightarrow> world \<Rightarrow> error + (jsval \<times> world)" where
  "static_addPopup e element option w =
     (if truthy element \<and> stub w then Inr (addPopup e element option w) else Inr (JUndefined, w))"

definition static_removePopup :: "env \<Rightarrow> jsval \<Rightarrow> bool \<Rightarrow> world \<Rightarrow> error + world" where
  "static_removePopup e pid forceUpdate w =
     (if truthy pid \<and> stub w then Inr (removePopup e pid forceUpdate w) else Inr w)"

definition static_removePopupImmediately :: "jsval \<Rightarrow> world \<Rightarrow> error + (bool \<times> world)" where
  "static_removePopupImmediately pid w =
     (if truthy pid \<and> stub w then Inr (removePopupImmediately pid w) else Inr (False, w))"

definition static_resetPopupProperty :: "jsval \<Rightarrow> string \<Rightarrow> jsval \<Rightarrow> world \<Rightarrow> error + world" where
  "static_resetPopupProperty pid key v w =
     (if truthy pid \<and> stub w then Inr (resetPopupProperty pid key v w) else Inr w)"

definition static_removeAll :: "(obj \<Rightarrow> bool) option \<Rightarrow> world \<Rightarrow> error + world" where
  "static_removeAll filt w = (if stub w then Inr (removeAll_js filt w) else Inl TypeError)"

section \<open>Example states\<close>

text \<open>Concrete collaborators and records on which the theorems below are run.\<close>

definition example_env :: env where
  "example_env = \<lparr>createPopup = (\<lambda>element option pr. option), reverseKeyframes = (\<lambda>v. v),
                   coerce = (\<lambda>v. JNaN), callResult = (\<lambda>f args. JBool False)\<rparr>"

definition example_world :: "registry \<Rightarrow> world" where
  "example_world ps = \<lparr>stub = True, orderId = 0, props = [], popups = ps, timers = [], trace = []\<rparr>"

definition toast :: obj where
  "toast = [(''id'', JStr ''toast''), (''zIndex'', JNum 1), (''visible'', JBool True),
            (''_closing'', JBool True), (''onClosed'', JFun 7)]"

definition alert :: obj where
  "alert = [(''id'', JStr ''alert''), (''zIndex'', JNum 9), (''visible'', JBool True),
            (''_closing'', JBool False)]"

definition nameless :: obj where
  "nameless = [(''id'', JStr ''''), (''zIndex'', JNum 1)]"

definition plain :: obj where
  "plain = [(''id'', JStr ''plain''), (''zIndex'', JNum 2), (''visible'', JBool True),
            (''_closing'', JBool False), (''onClosed'', JFun 4)]"

definition next_option :: obj where
  "next_option = [(''id'', JStr ''next''), (''zIndex'', JNum 1), (''animation'', JStr ''fadeIn''),
                  (''duration'', JNum 200)]"

section \<open>Immediate removal\<close>

lemma map_of_Some_key: "map_of xs k = Some v \<Longrightarrow> k \<in> fst ` set xs"
  by (metis map_of_eq_None_iff option.distinct(1))

text \<open>
  Claim C4. \<^verbatim>\<open>removePopupImmediately(id)\<close> returns true exactly when the registry has a
  record under \<open>id\<close>. When it has none, the state is unchanged. When it has one, whatever
  its \<^verbatim>\<open>_closing\<close> flag, the record is deleted, the registry without it is committed, and
  the record's \<^verbatim>\<open>onClosed\<close> (when it is a function) is called once, after that commit and
  hence after the registry has lost the id; nothing else is observed.
\<close>

theorem removePopupImmediately_found:
  "fst (removePopupImmediately pid w) = (pid \<in> fst ` set (popups w))
   \<and> (pid \<notin> fst ` set (popups w) \<longrightarrow> snd (removePopupImmediately pid w) = w)
   \<and> (\<forall>popup. map_of (popups w) pid = Some popup \<longrightarrow>
         popups (snd (removePopupImmediately pid w)) = AList.delete pid (popups w)
       \<and> pid \<notin> fst ` set (popups (snd (removePopupImmediately pid w)))
       \<and> trace (snd (removePopupImmediately pid w)) =
           trace w @ Commit (AList.delete pid (popups w))
             # (if isFunction (get popup ''onClosed'') then [Invoke (get popup ''onClosed'') []] else []))"
proof (cases "map_of (popups w) pid")
  case None
  then have "pid \<notin> fst ` set (popups w)" by (simp add: map_of_eq_None_iff)
  with None show ?thesis by (simp add: removePopupImmediately_def)
next
  case (Some popup)
  then have "pid \<in> fst ` set (popups w)" by (rule map_of_Some_key)
  with Some show ?thesis
    by (simp add: removePopupImmediately_def setState_def invoke_def Let_def delete_notin_dom)
qed

theorem removePopupImmediately_found_witness:
  "fst (removePopupImmediately (JStr ''toast'') (example_world [(JStr ''toast'', toast)]))
   \<and> popups (snd (removePopupImmediately (JStr ''toast'') (example_world [(JStr ''toast'', toast)]))) = []
   \<and> trace (snd (removePopupImmediately (JStr ''toast'') (example_world [(JStr ''toast'', toast)])))
       = [Commit [], Invoke (JFun 7) []]
   \<and> \<not> fst (removePopupImmediately (JStr ''other'') (example_world [(JStr ''toast'', toast)]))
   \<and> snd (removePopupImmediately (JStr ''other'') (example_world [(JStr ''toast'', toast)]))
       = example_world [(JStr ''toast'', toast)]"
  using removePopupImmediately_found [of "JStr ''toast''" "example_world [(JStr ''toast'', toast)]"]
        removePopupImmediately_found [of "JStr ''other''" "example_world [(JStr ''toast'', toast)]"]
  by (simp add: example_world_def toast_def get_def)

section \<open>The static facade without a live instance\<close>

definition unmounted_world :: world where
  "unmounted_world = \<lparr>stub = False, orderId = 0, props = [], popups = [], timers = [], trace = []\<rparr>"

text \<open>
  Claim C5. With \<^verbatim>\<open>PopupStub.stub\<close> still \<^verbatim>\<open>null\<close>, the static \<^verbatim>\<open>addPopup\<close>, \<^verbatim>\<open>removePopup\<close>,
  \<^verbatim>\<open>removePopupImmediately\<close>, \<^verbatim>\<open>resetPopupProperty\<close> and \<^verbatim>\<open>isShow\<close> leave the state as it is,
  each behind its presence check. The static \<^verbatim>\<open>removeAll\<close> has no such check: it calls a
  method on \<^verbatim>\<open>null\<close> and throws a \<^verbatim>\<open>TypeError\<close>.
\<close>

theorem static_removeAll_throws_without_stub:
  "static_removeAll None unmounted_world = Inl TypeError
   \<and> static_addPopup example_env (JObj 1) [] unmounted_world = Inr (JUndefined, unmounted_world)
   \<and> static_removePopup example_env (JStr ''toast'') True unmounted_world = Inr unmounted_world
   \<and> static_removePopupImmediately (JStr ''toast'') unmounted_world = Inr (False, unmounted_world)
   \<and> static_resetPopupProperty (JStr ''toast'') ''zIndex'' (JNum 5) unmounted_world = Inr unmounted_world
   \<and> static_isShow (\<lambda>popup. True) unmounted_world = False"
  by (simp add: static_removeAll_def static_addPopup_def static_removePopup_def
      static_removePopupImmediately_def static_resetPopupProperty_def static_isShow_def
      unmounted_world_def)

section \<open>Resetting a property\<close>

text \<open>The conditions under which \<^verbatim>\<open>resetPopupProperty\<close> returns without a change.\<close>

definition reset_rejected :: "jsval \<Rightarrow> string \<Rightarrow> world \<Rightarrow> bool" where
  "reset_rejected pid key w =
     (\<not> truthy pid \<or> key = [] \<or> key = ''id'' \<or> hd key = CHR ''_''
      \<or> (case map_of (popups w) pid of None \<Rightarrow> True | Some popup \<Rightarrow> \<not> hasOwnProperty popup key))"

lemma get_put_same: "get (put k v ob) k = v"
  by (simp add: get_def put_def update_conv')

lemma get_put_other: "k' \<noteq> k \<Longrightarrow> get (put k v ob) k' = get ob k'"
  by (simp add: get_def put_def update_conv')

text \<open>
  Claim C9, as amended. \<^verbatim>\<open>resetPopupProperty(id, key, value)\<close> changes nothing and commits
  nothing when \<open>id\<close> is falsy, \<open>key\<close> is empty, \<open>key\<close> is \<^verbatim>\<open>'id'\<close>, \<open>key\<close> begins with an
  underscore, the registry has no record under \<open>id\<close>, or the record has no own property
  \<open>key\<close>. In every other case the record under \<open>id\<close> gets \<open>value\<close> as its \<open>key\<close> and the
  registry is committed once.
\<close>

theorem resetPopupProperty_cases:
  "(reset_rejected pid key w \<longrightarrow> resetPopupProperty pid key v w = w)
   \<and> (\<not> reset_rejected pid key w \<longrightarrow>
        (\<exists>popup. map_of (popups w) pid = Some popup
           \<and> map_of (popups (resetPopupProperty pid key v w)) pid = Some (put key v popup)
           \<and> get (put key v popup) key = v)
        \<and> trace (resetPopupProperty pid key v w) =
            trace w @ [Commit (popups (resetPopupProperty pid key v w))])"
  by (auto simp: reset_rejected_def resetPopupProperty_def setState_def update_conv' get_put_same
      split: option.splits)

theorem resetPopupProperty_cases_witness:
  "resetPopupProperty (JStr ''alert'') ''id'' (JStr ''x'') (example_world [(JStr ''alert'', alert)])
     = example_world [(JStr ''alert'', alert)]
   \<and> resetPopupProperty (JStr ''alert'') ''_closing'' (JBool True) (example_world [(JStr ''alert'', alert)])
     = example_world [(JStr ''alert'', alert)]
   \<and> map_of (popups (resetPopupProperty (JStr ''alert'') ''zIndex'' (JNum 5)
        (example_world [(JStr ''alert'', alert)]))) (JStr ''alert'')
     = Some [(''id'', JStr ''alert''), (''zIndex'', JNum 5), (''visible'', JBool True),
            (''_closing'', JBool False)]
   \<and> trace (resetPopupProperty (JStr ''alert'') ''zIndex'' (JNum 5) (example_world [(JStr ''alert'', alert)]))
     = [Commit [(JStr ''alert'', [(''id'', JStr ''alert''), (''zIndex'', JNum 5), (''visible'', JBool True),
            (''_closing'', JBool False)])]]"
  using resetPopupProperty_cases [of "JStr ''alert''" "''id''" "example_world [(JStr ''alert'', alert)]" "JStr ''x''"]
        resetPopupProperty_cases [of "JStr ''alert''" "''_closing''" "example_world [(JStr ''alert'', alert)]" "JBool True"]
        resetPopupProperty_cases [of "JStr ''alert''" "''zIndex''" "example_world [(JStr ''alert'', alert)]" "JNum 5"]
  by (simp add: reset_rejected_def example_world_def alert_def hasOwnProperty_def put_def
      resetPopupProperty_def setState_def)

text \<open>
  Claim C9 as stated fails: a record registered under the empty string has \<^verbatim>\<open>zIndex\<close> as an
  own property, the key is neither \<^verbatim>\<open>'id'\<close> nor private, and still
  \<^verbatim>\<open>resetPopupProperty('', 'zIndex', 5)\<close> changes nothing, stopped by the check \<^verbatim>\<open>!id\<close>.
\<close>

theorem resetPopupProperty_falsy_id_counterexample:
  "\<not> (''zIndex'' = ''id'' \<or> hd ''zIndex'' = CHR ''_''
       \<or> JStr '''' \<notin> fst ` set (popups (example_world [(JStr '''', nameless)]))
       \<or> \<not> hasOwnProperty nameless ''zIndex'')
   \<and> map_of (popups (example_world [(JStr '''', nameless)])) (JStr '''') = Some nameless
   \<and> resetPopupProperty (JStr '''') ''zIndex'' (JNum 5) (example_world [(JStr '''', nameless)])
       = example_world [(JStr '''', nameless)]
   \<and> get nameless ''zIndex'' \<noteq> JNum 5"
  by (simp add: resetPopupProperty_def example_world_def nameless_def hasOwnProperty_def get_def)

lemma update_nth_other:
  "i < length al \<Longrightarrow> fst (al ! i) \<noteq> k \<Longrightarrow> AList.update k v al ! i = al ! i"
proof (induction al arbitrary: i)
  case Nil
  then show ?case by simp
next
  case (Cons p al)
  then show ?case by (cases i) auto
qed

lemma update_keys_present:
  "k \<in> fst ` set al \<Longrightarrow> map fst (AList.update k v al) = map fst al"
  by (simp add: update_keys)

text \<open>
  Claim C10. A \<^verbatim>\<open>resetPopupProperty(id, key, value)\<close> that is not rejected keeps the registry's
  iteration order, every entry under another key, and in the record under \<open>id\<close> the order of
  the properties and the value of every property but \<open>key\<close>; the counter, the props, the
  timers and \<^verbatim>\<open>PopupStub.stub\<close> stay as they are. The registry is not sorted again, also
  when the key is \<^verbatim>\<open>zIndex\<close>.
\<close>

theorem resetPopupProperty_frame:
  assumes "\<not> reset_rejected pid key w"
  shows "map fst (popups (resetPopupProperty pid key v w)) = map fst (popups w)
    \<and> (\<forall>i < length (popups w). fst (popups w ! i) \<noteq> pid \<longrightarrow>
          popups (resetPopupProperty pid key v w) ! i = popups w ! i)
    \<and> (\<forall>k. k \<noteq> pid \<longrightarrow> map_of (popups (resetPopupProperty pid key v w)) k = map_of (popups w) k)
    \<and> (\<exists>popup popup'. map_of (popups w) pid = Some popup
          \<and> map_of (popups (resetPopupProperty pid key v w)) pid = Some popup'
          \<and> map fst popup' = map fst popup
          \<and> (\<forall>k'. k' \<noteq> key \<longrightarrow> get popup' k' = get popup k'))
    \<and> stub (resetPopupProperty pid key v w) = stub w
    \<and> orderId (resetPopupProperty pid key v w) = orderId w
    \<and> props (resetPopupProperty pid key v w) = props w
    \<and> timers (resetPopupProperty pid key v w) = timers w"
proof -
  from assms obtain popup where
    ok: "truthy pid" "key \<noteq> []" "key \<noteq> ''id''" "hd key \<noteq> CHR ''_''"
    and popup: "map_of (popups w) pid = Some popup"
    and own: "hasOwnProperty popup key"
    by (auto simp: reset_rejected_def split: option.splits)
  have r: "resetPopupProperty pid key v w =
      setState (AList.update pid (put key v popup) (popups w)) w"
    using ok popup own by (simp add: resetPopupProperty_def)
  have present: "pid \<in> fst ` set (popups w)"
    using popup by (rule map_of_Some_key)
  have keys: "map fst (AList.update pid (put key v popup) (popups w)) = map fst (popups w)"
    using present by (rule update_keys_present)
  have props_order: "map fst (put key v popup) = map fst popup"
    using own by (simp add: hasOwnProperty_def put_def update_keys)
  show ?thesis
    unfolding r
    using keys props_order popup
    by (simp add: setState_def update_nth_other update_conv' get_put_other)
qed

definition banner :: obj where
  "banner = [(''id'', JStr ''banner''), (''zIndex'', JNum 3), (''visible'', JBool True),
             (''_closing'', JBool False)]"

theorem resetPopupProperty_frame_witness:
  "\<not> reset_rejected (JStr ''banner'') ''zIndex''
       (example_world [(JStr ''banner'', banner), (JStr ''alert'', alert)])
   \<and> popups (resetPopupProperty (JStr ''banner'') ''zIndex'' (JNum 20)
        (example_world [(JStr ''banner'', banner), (JStr ''alert'', alert)]))
     = [(JStr ''banner'', [(''id'', JStr ''banner''), (''zIndex'', JNum 20), (''visible'', JBool True),
             (''_closing'', JBool False)]), (JStr ''alert'', alert)]
   \<and> map fst (popups (resetPopupProperty (JStr ''banner'') ''zIndex'' (JNum 20)
        (example_world [(JStr ''banner'', banner), (JStr ''alert'', alert)])))
     = [JStr ''banner'', JStr ''alert'']"
  using resetPopupProperty_frame [of "JStr ''banner''" "''zIndex''"
          "example_world [(JStr ''banner'', banner), (JStr ''alert'', alert)]" "JNum 20"]
  by (simp add: reset_rejected_def example_world_def banner_def alert_def hasOwnProperty_def put_def
      resetPopupProperty_def setState_def)

section \<open>Removal through \<^verbatim>\<open>removePopup\<close>\<close>

lemma removePopupImmediately_Some:
  "map_of (popups w) pid = Some popup \<Longrightarrow>
   removePopupImmediately pid w =
     (True, w\<lparr>popups := AList.delete pid (popups w),
              trace := trace w @ Commit (AList.delete pid (popups w))
                # (if isFunction (get popup ''onClosed'') then [Invoke (get popup ''onClosed'') []] else [])\<rparr>)"
  by (simp add: removePopupImmediately_def setState_def invoke_def Let_def)

lemma set_delete_subset: "set (AList.delete k al) \<subseteq> set al"
  by (auto simp: AList.delete_eq)

text \<open>The conditions under which \<^verbatim>\<open>removePopup\<close> returns at once.\<close>

definition remove_ignored :: "jsval \<Rightarrow> world \<Rightarrow> bool" where
  "remove_ignored pid w =
     (\<not> truthy pid \<or> \<not> stub w
      \<or> (case map_of (popups w) pid of None \<Rightarrow> True | Some popup \<Rightarrow> truthy (get popup ''_closing'')))"

text \<open>
  Claim C1, as amended. \<^verbatim>\<open>removePopup(id, forceUpdate)\<close> leaves the whole state unchanged
  when \<open>id\<close> is falsy, when \<^verbatim>\<open>PopupStub.stub\<close> is \<^verbatim>\<open>null\<close>, when the registry has no record
  under \<open>id\<close>, or when that record is already closing. Otherwise, when the record has no
  animation or is not visible, the call deletes it: the only commit is the registry without
  the record, no remaining record is touched (so none ever carries a new \<^verbatim>\<open>_closing\<close>), no
  timer is started, and \<^verbatim>\<open>onClosed\<close> is called after the commit.
\<close>

theorem removePopup_noop_or_immediate:
  "(remove_ignored pid w \<longrightarrow> removePopup e pid forceUpdate w = w)
   \<and> (\<forall>popup. \<not> remove_ignored pid w \<and> map_of (popups w) pid = Some popup
          \<and> (\<not> truthy (get popup ''animation'') \<or> \<not> truthy (get popup ''visible'')) \<longrightarrow>
        popups (removePopup e pid forceUpdate w) = AList.delete pid (popups w)
        \<and> pid \<notin> fst ` set (popups (removePopup e pid forceUpdate w))
        \<and> set (popups (removePopup e pid forceUpdate w)) \<subseteq> set (popups w)
        \<and> trace (removePopup e pid forceUpdate w) =
            trace w @ Commit (AList.delete pid (popups w))
              # (if isFunction (get popup ''onClosed'') then [Invoke (get popup ''onClosed'') []] else [])
        \<and> timers (removePopup e pid forceUpdate w) = timers w)"
proof (intro conjI allI impI)
  assume "remove_ignored pid w"
  then show "removePopup e pid forceUpdate w = w"
    by (auto simp: remove_ignored_def removePopup_def split: option.splits)
next
  fix popup
  assume a: "\<not> remove_ignored pid w \<and> map_of (popups w) pid = Some popup
          \<and> (\<not> truthy (get popup ''animation'') \<or> \<not> truthy (get popup ''visible''))"
  then have r: "removePopup e pid forceUpdate w = snd (removePopupImmediately pid w)"
    by (auto simp: remove_ignored_def removePopup_def)
  from a have s: "map_of (popups w) pid = Some popup" by simp
  show "popups (removePopup e pid forceUpdate w) = AList.delete pid (popups w)"
    by (simp add: r removePopupImmediately_Some [OF s])
  show "pid \<notin> fst ` set (popups (removePopup e pid forceUpdate w))"
    by (simp add: r removePopupImmediately_Some [OF s] delete_notin_dom)
  show "set (popups (removePopup e pid forceUpdate w)) \<subseteq> set (popups w)"
    by (simp add: r removePopupImmediately_Some [OF s] set_delete_subset)
  show "trace (removePopup e pid forceUpdate w) =
            trace w @ Commit (AList.delete pid (popups w))
              # (if isFunction (get popup ''onClosed'') then [Invoke (get popup ''onClosed'') []] else [])"
    by (simp add: r removePopupImmediately_Some [OF s])
  show "timers (removePopup e pid forceUpdate w) = timers w"
    by (simp add: r removePopupImmediately_Some [OF s])
qed

theorem removePopup_noop_or_immediate_witness:
  "remove_ignored (JStr ''toast'') (example_world [(JStr ''toast'', toast), (JStr ''plain'', plain)])
   \<and> removePopup example_env (JStr ''toast'') True
        (example_world [(JStr ''toast'', toast), (JStr ''plain'', plain)])
      = example_world [(JStr ''toast'', toast), (JStr ''plain'', plain)]
   \<and> \<not> remove_ignored (JStr ''plain'') (example_world [(JStr ''toast'', toast), (JStr ''plain'', plain)])
   \<and> \<not> truthy (get plain ''animation'')
   \<and> popups (removePopup example_env (JStr ''plain'') True
        (example_world [(JStr ''toast'', toast), (JStr ''plain'', plain)])) = [(JStr ''toast'', toast)]
   \<and> trace (removePopup example_env (JStr ''plain'') True
        (example_world [(JStr ''toast'', toast), (JStr ''plain'', plain)]))
      = [Commit [(JStr ''toast'', toast)], Invoke (JFun 4) []]"
  using removePopup_noop_or_immediate [of "JStr ''toast''"
          "example_world [(JStr ''toast'', toast), (JStr ''plain'', plain)]" example_env True]
        removePopup_noop_or_immediate [of "JStr ''plain''"
          "example_world [(JStr ''toast'', toast), (JStr ''plain'', plain)]" example_env True]
  by (simp add: remove_ignored_def example_world_def toast_def plain_def get_def)

text \<open>
  Claim C1 as stated fails: the record exists, is not closing and has no animation, and
  \<^verbatim>\<open>removePopup\<close> still keeps it, once because \<^verbatim>\<open>PopupStub.stub\<close> is \<^verbatim>\<open>null\<close> and once because
  the id is the empty string (line 264).
\<close>

theorem removePopup_guard_counterexample:
  "map_of (popups ((example_world [(JStr ''plain'', plain)])\<lparr>stub := False\<rparr>)) (JStr ''plain'') = Some plain
   \<and> \<not> truthy (get plain ''_closing'') \<and> \<not> truthy (get plain ''animation'')
   \<and> popups (removePopup example_env (JStr ''plain'') True
              ((example_world [(JStr ''plain'', plain)])\<lparr>stub := False\<rparr>))
       = [(JStr ''plain'', plain)]
   \<and> map_of (popups (example_world [(JStr '''', nameless)])) (JStr '''') = Some nameless
   \<and> \<not> truthy (get nameless ''_closing'') \<and> \<not> truthy (get nameless ''animation'')
   \<and> popups (removePopup example_env (JStr '''') True (example_world [(JStr '''', nameless)]))
       = [(JStr '''', nameless)]"
  by (simp add: removePopup_def example_world_def plain_def nameless_def get_def)

section \<open>Bulk removal\<close>

text \<open>
  The registry as the code builds it: one entry per key, each record under its own
  \<^verbatim>\<open>id\<close> (\<^verbatim>\<open>popups.set(newPopup.id, newPopup)\<close>).
\<close>

definition registry_keyed :: "registry \<Rightarrow> bool" where
  "registry_keyed ps = (distinct (map fst ps) \<and> list_all (\<lambda>(k, popup). get popup ''id'' = k) ps)"

lemma update_fresh: "k \<notin> fst ` set al \<Longrightarrow> AList.update k v al = al @ [(k, v)]"
  by (induction al) auto

lemma foldl_update_distinct:
  "distinct (map fst (acc @ xs)) \<Longrightarrow>
   foldl (\<lambda>m (k, v). AList.update k v m) acc xs = acc @ xs"
proof (induction xs arbitrary: acc)
  case Nil
  then show ?case by simp
next
  case (Cons x xs)
  obtain k v where x: "x = (k, v)" by (cases x)
  from Cons.prems have fresh: "k \<notin> fst ` set acc" by (auto simp: x)
  from Cons.prems have "distinct (map fst ((acc @ [(k, v)]) @ xs))" by (simp add: x)
  then have "foldl (\<lambda>m (k, v). AList.update k v m) (acc @ [(k, v)]) xs = (acc @ [(k, v)]) @ xs"
    by (rule Cons.IH)
  then show ?case by (simp add: x update_fresh [OF fresh])
qed

lemma new_Map_distinct: "distinct (map fst xs) \<Longrightarrow> new_Map xs = xs"
  using foldl_update_distinct [of "[]" xs] by (simp add: new_Map_def)

lemma keyed_filter_entries:
  "list_all (\<lambda>(k, popup). get popup ''id'' = k) ps \<Longrightarrow>
   map (\<lambda>popup. (get popup ''id'', popup)) (filter P (map snd ps)) = filter (\<lambda>(k, popup). P popup) ps"
  by (induction ps) auto

lemma new_Map_kept:
  assumes "registry_keyed ps"
  shows "new_Map (map (\<lambda>popup. (get popup ''id'', popup)) (filter P (map snd ps)))
         = filter (\<lambda>(k, popup). P popup) ps"
proof -
  from assms have d: "distinct (map fst ps)" and k: "list_all (\<lambda>(k, popup). get popup ''id'' = k) ps"
    by (simp_all add: registry_keyed_def)
  have "distinct (map fst (filter (\<lambda>(k, popup). P popup) ps))"
    using d by (rule distinct_map_filter)
  then show ?thesis by (simp add: keyed_filter_entries [OF k] new_Map_distinct)
qed

text \<open>The \<^verbatim>\<open>onClosed\<close> callbacks \<^verbatim>\<open>removeAll\<close> collects, in the order of the registry.\<close>

definition collected :: "(obj \<Rightarrow> bool) \<Rightarrow> registry \<Rightarrow> jsval list" where
  "collected f ps =
     map (\<lambda>popup. get popup ''onClosed'')
       (filter (\<lambda>popup. f popup \<and> isFunction (get popup ''onClosed'')) (map snd ps))"

text \<open>
  Claim C6. \<^verbatim>\<open>removeAll()\<close> without a filter leaves the registry empty; on a registry that
  was not empty it commits the empty registry and then calls the \<^verbatim>\<open>onClosed\<close> of every
  record that was registered, once each, in the order of the registry. With a function as
  filter, the registry keeps exactly the entries whose record the filter rejects, in their
  order; that registry is committed once, and after it the \<^verbatim>\<open>onClosed\<close> callbacks of the
  removed records are called in the order in which they were collected. No record is put
  into the closing state. On an empty registry nothing happens.
\<close>

theorem removeAll_clears_then_calls:
  "popups (removeAll_js None w) = []
   \<and> (popups w \<noteq> [] \<longrightarrow>
        trace (removeAll_js None w) =
          trace w @ Commit [] # map (\<lambda>g. Invoke g []) (collected (\<lambda>popup. True) (popups w)))
   \<and> (registry_keyed (popups w) \<longrightarrow>
        popups (removeAll_js (Some f) w) = filter (\<lambda>(k, popup). \<not> f popup) (popups w))
   \<and> (registry_keyed (popups w) \<and> popups w \<noteq> [] \<longrightarrow>
        trace (removeAll_js (Some f) w) =
          trace w @ Commit (filter (\<lambda>(k, popup). \<not> f popup) (popups w))
            # map (\<lambda>g. Invoke g []) (collected f (popups w)))
   \<and> (popups w = [] \<longrightarrow> removeAll_js filt w = w)"
proof (intro conjI impI)
  show "popups (removeAll_js None w) = []"
    by (simp add: removeAll_js_def invoke_all_def setState_def Let_def)
  show "trace (removeAll_js None w) =
          trace w @ Commit [] # map (\<lambda>g. Invoke g []) (collected (\<lambda>popup. True) (popups w))"
    if "popups w \<noteq> []"
    using that by (simp add: removeAll_js_def invoke_all_def setState_def Let_def collected_def)
  show "popups (removeAll_js (Some f) w) = filter (\<lambda>(k, popup). \<not> f popup) (popups w)"
    if "registry_keyed (popups w)"
    using new_Map_kept [OF that, of "\<lambda>popup. \<not> f popup"]
    by (simp add: removeAll_js_def invoke_all_def setState_def Let_def)
  show "trace (removeAll_js (Some f) w) =
          trace w @ Commit (filter (\<lambda>(k, popup). \<not> f popup) (popups w))
            # map (\<lambda>g. Invoke g []) (collected f (popups w))"
    if "registry_keyed (popups w) \<and> popups w \<noteq> []"
    using that new_Map_kept [of "popups w" "\<lambda>popup. \<not> f popup"]
    by (simp add: removeAll_js_def invoke_all_def setState_def Let_def collected_def)
  show "removeAll_js filt w = w" if "popups w = []"
    using that by (simp add: removeAll_js_def)
qed

definition sheet :: obj where
  "sheet = [(''id'', JStr ''sheet''), (''zIndex'', JNum 5), (''visible'', JBool False),
            (''_closing'', JBool False), (''onClosed'', JFun 5)]"

definition three_popups :: registry where
  "three_popups = [(JStr ''toast'', toast), (JStr ''plain'', plain), (JStr ''sheet'', sheet)]"

theorem removeAll_clears_then_calls_witness:
  "registry_keyed three_popups \<and> three_popups \<noteq> []
   \<and> popups (removeAll_js None (example_world three_popups)) = []
   \<and> trace (removeAll_js None (example_world three_popups))
       = [Commit [], Invoke (JFun 7) [], Invoke (JFun 4) [], Invoke (JFun 5) []]
   \<and> popups (removeAll_js (Some (\<lambda>popup. truthy (get popup ''visible''))) (example_world three_popups))
       = [(JStr ''sheet'', sheet)]
   \<and> trace (removeAll_js (Some (\<lambda>popup. truthy (get popup ''visible''))) (example_world three_popups))
       = [Commit [(JStr ''sheet'', sheet)], Invoke (JFun 7) [], Invoke (JFun 4) []]"
  using removeAll_clears_then_calls [of "example_world three_popups"
          "\<lambda>popup. truthy (get popup ''visible'')" None]
  by (simp add: registry_keyed_def three_popups_def example_world_def toast_def plain_def sheet_def
      get_def collected_def)

section \<open>The back button selects the latest eligible popup\<close>

text \<open>A record the back button may act on: visible and not closing.\<close>

definition eligible :: "obj \<Rightarrow> bool" where
  "eligible popup = (\<not> truthy (get popup ''_closing'') \<and> truthy (get popup ''visible''))"

fun is_number :: "jsval \<Rightarrow> bool" where
  "is_number (JNum r) = True"
| "is_number v = False"

text \<open>The \<^verbatim>\<open>_orderId\<close> of a record that has a number there.\<close>

definition orderNum :: "obj \<Rightarrow> rat" where
  "orderNum popup = (case get popup ''_orderId'' of JNum r \<Rightarrow> r | _ \<Rightarrow> 0)"

lemma insort_js_set: "set (insort_js cmp x ys) = insert x (set ys)"
  by (induction ys) auto

lemma sort_js_set: "set (sort_js cmp xs) = set xs"
  by (induction xs) (simp_all add: sort_js_def insort_js_set)

lemma insort_js_nonempty: "insort_js cmp x ys \<noteq> []"
  by (cases ys) auto

lemma sort_js_Cons: "sort_js cmp (x # xs) = insort_js cmp x (sort_js cmp xs)"
  by (simp add: sort_js_def)

lemma sort_js_nonempty: "xs \<noteq> [] \<Longrightarrow> sort_js cmp xs \<noteq> []"
  by (cases xs) (simp_all add: sort_js_Cons insort_js_nonempty)

lemma insort_js_last:
  "last (insort_js cmp x ys) = (if \<forall>y\<in>set ys. positive (cmp x y) then x else last ys)"
proof (induction ys)
  case Nil
  then show ?case by simp
next
  case (Cons y ys)
  show ?case
  proof (cases "positive (cmp x y)")
    case True
    then show ?thesis using Cons.IH by (auto simp: insort_js_nonempty)
  next
    case False
    then show ?thesis by auto
  qed
qed

lemma back_cmp_ineligible_right: "\<not> eligible b \<Longrightarrow> back_cmp e a b = JNum 1"
  by (auto simp: back_cmp_def eligible_def)

lemma back_cmp_ineligible_left: "eligible b \<Longrightarrow> \<not> eligible a \<Longrightarrow> back_cmp e a b = JNum (- 1)"
  by (auto simp: back_cmp_def eligible_def)

lemma back_cmp_eligible:
  "eligible a \<Longrightarrow> eligible b \<Longrightarrow> is_number (get a ''_orderId'') \<Longrightarrow> is_number (get b ''_orderId'')
   \<Longrightarrow> back_cmp e a b = JNum (orderNum a - orderNum b)"
  by (cases "get a ''_orderId''"; cases "get b ''_orderId''")
     (auto simp: back_cmp_def eligible_def js_sub_def orderNum_def)

text \<open>The last element of the sorted array is an eligible record of the highest \<^verbatim>\<open>_orderId\<close>.\<close>

lemma back_sort_last:
  assumes "\<forall>p\<in>set xs. eligible p \<longrightarrow> is_number (get p ''_orderId'')"
    and "\<exists>p\<in>set xs. eligible p"
  shows "eligible (last (sort_js (back_cmp e) xs))
       \<and> (\<forall>p\<in>set xs. eligible p \<longrightarrow> orderNum p \<le> orderNum (last (sort_js (back_cmp e) xs)))"
  using assms
proof (induction xs)
  case Nil
  then show ?case by simp
next
  case (Cons x xs)
  let ?ys = "sort_js (back_cmp e) xs"
  have num: "\<forall>p\<in>set xs. eligible p \<longrightarrow> is_number (get p ''_orderId'')"
    using Cons.prems(1) by simp
  have numx: "eligible x \<Longrightarrow> is_number (get x ''_orderId'')"
    using Cons.prems(1) by simp
  have l: "last (sort_js (back_cmp e) (x # xs)) =
      (if \<forall>y\<in>set xs. positive (back_cmp e x y) then x else last ?ys)"
    by (simp add: sort_js_Cons insort_js_last sort_js_set)
  show ?case
  proof (cases "\<forall>y\<in>set xs. positive (back_cmp e x y)")
    case True
    have ex: "eligible x"
    proof (rule ccontr)
      assume nx: "\<not> eligible x"
      with Cons.prems(2) obtain q where q: "q \<in> set xs" "eligible q" by auto
      then have "back_cmp e x q = JNum (- 1)" using nx by (simp add: back_cmp_ineligible_left)
      with True q show False by auto
    qed
    have "orderNum p \<le> orderNum x" if p: "p \<in> set xs" "eligible p" for p
    proof -
      have "back_cmp e x p = JNum (orderNum x - orderNum p)"
        using ex p num numx by (simp add: back_cmp_eligible)
      with True p show ?thesis by auto
    qed
    with ex True l show ?thesis by auto
  next
    case False
    then obtain y where y: "y \<in> set xs" "\<not> positive (back_cmp e x y)" by auto
    have ey: "eligible y"
    proof (rule ccontr)
      assume "\<not> eligible y"
      then have "back_cmp e x y = JNum 1" by (rule back_cmp_ineligible_right)
      with y show False by simp
    qed
    with y have "\<exists>p\<in>set xs. eligible p" by auto
    with num Cons.IH have ih: "eligible (last ?ys)"
      "\<forall>p\<in>set xs. eligible p \<longrightarrow> orderNum p \<le> orderNum (last ?ys)" by auto
    have "orderNum x \<le> orderNum (last ?ys)" if ex: "eligible x"
    proof -
      have "back_cmp e x y = JNum (orderNum x - orderNum y)"
        using ex ey y num numx by (simp add: back_cmp_eligible)
      with y have "orderNum x \<le> orderNum y" by simp
      moreover have "orderNum y \<le> orderNum (last ?ys)" using ih(2) y ey by auto
      ultimately show ?thesis by simp
    qed
    with ih False l show ?thesis by auto
  qed
qed

section \<open>What the operations leave alone\<close>

lemma removePopupImmediately_static:
  "stub (snd (removePopupImmediately pid w)) = stub w"
  "orderId (snd (removePopupImmediately pid w)) = orderId w"
  "props (snd (removePopupImmediately pid w)) = props w"
  by (simp_all add: removePopupImmediately_def setState_def invoke_def Let_def split: option.splits)

lemma removePopup_static:
  "stub (removePopup e pid fu w) = stub w"
  "orderId (removePopup e pid fu w) = orderId w"
  "props (removePopup e pid fu w) = props w"
  by (simp_all add: removePopup_def removePopupImmediately_static setState_def Let_def
      split: option.splits prod.splits)

lemma closeSameZIndex_static:
  "stub (snd (closeSameZIndex e ps newPopup w)) = stub w"
  "orderId (snd (closeSameZIndex e ps newPopup w)) = orderId w"
  "props (snd (closeSameZIndex e ps newPopup w)) = props w"
  by (induction e ps newPopup w rule: closeSameZIndex.induct)
     (simp_all add: removePopup_static Let_def)

lemma addPopup_static:
  "stub (snd (addPopup e element option w)) = stub w"
  "orderId (snd (addPopup e element option w)) =
     (if truthy element \<and> stub w then next_orderId (orderId w) else orderId w)"
  "props (snd (addPopup e element option w)) = props w"
  by (simp_all add: addPopup_def closeSameZIndex_static setState_def invoke_def Let_def
      case_prod_beta)

section \<open>Sorting keeps the entries\<close>

lemma insort_js_distinct:
  "distinct (map f (insort_js cmp x ys)) = (f x \<notin> f ` set ys \<and> distinct (map f ys))"
  by (induction ys) (auto simp: insort_js_set)

lemma sort_js_distinct: "distinct (map f (sort_js cmp xs)) = distinct (map f xs)"
proof (induction xs)
  case Nil
  then show ?case by (simp add: sort_js_def)
next
  case (Cons x xs)
  then show ?case by (simp add: sort_js_Cons insort_js_distinct sort_js_set)
qed

lemma sortPopups_entries:
  assumes "distinct (map fst ps)"
  shows "set (sortPopups e ps) = set ps" and "distinct (map fst (sortPopups e ps))"
    and "map_of (sortPopups e ps) = map_of ps"
proof -
  have d: "distinct (map fst (sort_js (zIndex_cmp e) ps))"
    using assms by (simp add: sort_js_distinct)
  then have n: "new_Map (sort_js (zIndex_cmp e) ps) = sort_js (zIndex_cmp e) ps"
    by (rule new_Map_distinct)
  show s: "set (sortPopups e ps) = set ps"
    by (simp add: sortPopups_def n sort_js_set)
  show d': "distinct (map fst (sortPopups e ps))"
    using assms d by (simp add: sortPopups_def n)
  show "map_of (sortPopups e ps) = map_of ps"
    using d' assms s by (simp add: map_of_inject_set)
qed

section \<open>The steps of \<^verbatim>\<open>addPopup\<close>\<close>

lemma closeSameZIndex_hit:
  assumes "list_all (\<lambda>(k, p). \<not> (strict_eq (get p ''zIndex'') (get created ''zIndex'')
                                  \<and> \<not> truthy (get p ''_closing''))) before"
    and "strict_eq (get popup ''zIndex'') (get created ''zIndex'')"
    and "\<not> truthy (get popup ''_closing'')"
  shows "closeSameZIndex e (before @ (key, popup) # after) created w =
           (put ''delay'' (js_half e (get popup ''duration''))
              (put ''_maskDelay'' (js_half e (get popup ''duration'')) created),
            removePopup e key False w)"
  using assms by (induction before) (auto simp: Let_def)

lemma closeSameZIndex_miss:
  assumes "list_all (\<lambda>(k, p). \<not> (strict_eq (get p ''zIndex'') (get created ''zIndex'')
                                  \<and> \<not> truthy (get p ''_closing''))) ps"
  shows "closeSameZIndex e ps created w = (created, w)"
  using assms by (induction ps) auto

lemma addPopup_steps:
  assumes "truthy element" and "stub w"
  shows "addPopup e element option w =
     (let cz = closeSameZIndex e (popups w)
                 (createPopup e element (orderedOption (orderId w) option) (props w))
                 (w\<lparr>orderId := next_orderId (orderId w)\<rparr>);
          ps = AList.update (get (fst cz) ''id'') (fst cz) (popups (snd cz));
          w2 = setState (sortPopups e ps) ((snd cz)\<lparr>popups := ps\<rparr>)
      in (get (fst cz) ''id'',
          if isFunction (get (fst cz) ''onAdded'') then invoke (get (fst cz) ''onAdded'') [] w2
          else w2))"
  using assms by (simp add: addPopup_def Let_def case_prod_beta)

section \<open>The closing transition\<close>

lemma removePopup_closing:
  assumes "truthy key" and "stub w" and "map_of (popups w) key = Some popup"
    and "\<not> truthy (get popup ''_closing'')"
    and "truthy (get popup ''animation'')" and "truthy (get popup ''visible'')"
  shows "removePopup e key False w =
     w\<lparr>popups := AList.update key (fst (beforeClosing e popup)) (popups w),
       timers := timers w @ snd (beforeClosing e popup)\<rparr>"
  using assms by (simp add: removePopup_def case_prod_beta Let_def)

lemma beforeClosing_fields:
  "get (fst (beforeClosing e popup)) ''delay'' = JNum 0"
  "get (fst (beforeClosing e popup)) ''_closing'' = JBool True"
  "get (fst (beforeClosing e popup)) ''_maskDelay'' =
     (if truthy (get popup ''_maskAnimatable'')
      then js_sub e (get popup ''duration'') (get popup ''maskDuration'')
      else get popup ''_maskDelay'')"
  by (simp_all add: beforeClosing_def Let_def get_put_same get_put_other)

lemma removePopup_distinct:
  "distinct (map fst (popups w)) \<Longrightarrow> distinct (map fst (popups (removePopup e key fu w)))"
  by (simp add: removePopup_def removePopupImmediately_def setState_def invoke_def Let_def
      case_prod_beta distinct_update distinct_delete split: option.splits)

section \<open>A newcomer with the \<^verbatim>\<open>zIndex\<close> of a registered popup\<close>

text \<open>The record the factory returns in \<^verbatim>\<open>addPopup\<close>, lines 181-185.\<close>

definition created_popup :: "env \<Rightarrow> jsval \<Rightarrow> obj \<Rightarrow> world \<Rightarrow> obj" where
  "created_popup e element option w =
     createPopup e element (orderedOption (orderId w) option) (props w)"

text \<open>The test of line 192: the record has the new popup's \<^verbatim>\<open>zIndex\<close> and is not closing.\<close>

definition collides :: "obj \<Rightarrow> obj \<Rightarrow> bool" where
  "collides newPopup popup =
     (strict_eq (get popup ''zIndex'') (get newPopup ''zIndex'') \<and> \<not> truthy (get popup ''_closing''))"

lemma removePopup_immediate:
  assumes "truthy key" and "stub w" and "map_of (popups w) key = Some popup"
    and "\<not> truthy (get popup ''_closing'')"
    and "\<not> truthy (get popup ''animation'') \<or> \<not> truthy (get popup ''visible'')"
  shows "removePopup e key fu w =
     w\<lparr>popups := AList.delete key (popups w),
       trace := trace w @ Commit (AList.delete key (popups w))
         # (if isFunction (get popup ''onClosed'') then [Invoke (get popup ''onClosed'') []] else [])\<rparr>"
  using assms by (auto simp: removePopup_def removePopupImmediately_Some)









section \<open>One open popup per \<^verbatim>\<open>zIndex\<close>\<close>

text \<open>A record that is not closing and has the \<^verbatim>\<open>zIndex\<close> \<open>z\<close>.\<close>

definition open_at :: "jsval \<Rightarrow> obj \<Rightarrow> bool" where
  "open_at z popup = (\<not> truthy (get popup ''_closing'') \<and> strict_eq (get popup ''zIndex'') z)"

text \<open>For every \<^verbatim>\<open>zIndex\<close> value the registry has at most one record open at it.\<close>

definition exclusive :: "registry \<Rightarrow> bool" where
  "exclusive ps = (\<forall>z. length (filter (open_at z) (map snd ps)) \<le> 1)"

text \<open>
  What holds of every registry the operations build: it is keyed by the records' ids, every
  key is truthy, and it is exclusive.
\<close>

definition registry_ok :: "registry \<Rightarrow> bool" where
  "registry_ok ps = (registry_keyed ps \<and> list_all (\<lambda>(k, popup). truthy k) ps \<and> exclusive ps)"

lemma count_update_le:
  "length (filter P (map snd (AList.update k v ps)))
     \<le> length (filter P (map snd ps)) + (if P v then 1 else 0)"
  by (induction ps) auto

lemma count_update_replace:
  "map_of ps k = Some p \<Longrightarrow> (P v \<longrightarrow> P p) \<Longrightarrow>
   length (filter P (map snd (AList.update k v ps))) \<le> length (filter P (map snd ps))"
  by (induction ps) auto

lemma count_delete_le:
  "length (filter P (map snd (AList.delete k ps))) \<le> length (filter P (map snd ps))"
  by (induction ps) auto

lemma count_filter_le:
  "length (filter P (map snd (filter Q ps))) \<le> length (filter P (map snd ps))"
  by (induction ps) auto

lemma count_insort_js:
  "length (filter P (insort_js cmp x ys)) = length (filter P (x # ys))"
  by (induction ys) auto

lemma count_sort_js: "length (filter P (sort_js cmp xs)) = length (filter P xs)"
  by (induction xs) (simp_all add: sort_js_Cons count_insort_js, simp add: sort_js_def)

lemma count_map_sort_js:
  "length (filter P (map f (sort_js cmp xs))) = length (filter P (map f xs))"
  by (simp add: filter_map count_sort_js)

lemma count_update_alone:
  "distinct (map fst ps) \<Longrightarrow> list_all (\<lambda>(k, p). k = pid \<or> \<not> P p) ps \<Longrightarrow>
   length (filter P (map snd (AList.update pid v ps))) \<le> 1"
proof (induction ps)
  case Nil
  then show ?case by simp
next
  case (Cons a ps)
  obtain k p where a: "a = (k, p)" by (cases a)
  show ?case
  proof (cases "k = pid")
    case True
    with Cons.prems have "list_all (\<lambda>(k, p). \<not> P p) ps"
      by (auto simp: a list_all_iff rev_image_eqI)
    then have "filter P (map snd ps) = []" by (induction ps) auto
    with True show ?thesis by (simp add: a)
  next
    case False
    with Cons show ?thesis by (simp add: a)
  qed
qed

lemma list_all_update:
  "list_all Q ps \<Longrightarrow> Q (k, v) \<Longrightarrow> list_all Q (AList.update k v ps)"
  by (induction ps) auto

lemma list_all_delete: "list_all Q ps \<Longrightarrow> list_all Q (AList.delete k ps)"
  by (induction ps) auto

lemma registry_keyed_update:
  "registry_keyed ps \<Longrightarrow> get v ''id'' = k \<Longrightarrow> registry_keyed (AList.update k v ps)"
  by (simp add: registry_keyed_def distinct_update list_all_update)

lemma registry_keyed_delete: "registry_keyed ps \<Longrightarrow> registry_keyed (AList.delete k ps)"
  by (simp add: registry_keyed_def distinct_delete list_all_delete)

lemma registry_keyed_filter: "registry_keyed ps \<Longrightarrow> registry_keyed (filter Q ps)"
  by (simp add: registry_keyed_def distinct_map_filter list_all_iff)

lemma exclusive_le:
  assumes "exclusive ps"
    and "\<And>z. length (filter (open_at z) (map snd qs)) \<le> length (filter (open_at z) (map snd ps))"
  shows "exclusive qs"
  unfolding exclusive_def
proof
  fix z
  from assms(1) have "length (filter (open_at z) (map snd ps)) \<le> 1" by (simp add: exclusive_def)
  with assms(2) [of z] show "length (filter (open_at z) (map snd qs)) \<le> 1" by simp
qed

lemma registry_ok_delete:
  assumes "registry_ok ps"
  shows "registry_ok (AList.delete k ps)"
proof -
  from assms have "exclusive (AList.delete k ps)"
    by (auto simp: registry_ok_def intro: exclusive_le count_delete_le)
  with assms show ?thesis
    by (simp add: registry_ok_def registry_keyed_delete list_all_delete)
qed

lemma registry_ok_filter:
  assumes "registry_ok ps"
  shows "registry_ok (filter Q ps)"
proof -
  from assms have "exclusive (filter Q ps)"
    by (auto simp: registry_ok_def intro: exclusive_le count_filter_le)
  moreover from assms have "list_all (\<lambda>(k, popup). truthy k) (filter Q ps)"
    by (simp add: registry_ok_def list_all_iff)
  ultimately show ?thesis using assms
    by (simp add: registry_ok_def registry_keyed_filter)
qed

lemma registry_ok_empty: "registry_ok []"
  by (simp add: registry_ok_def registry_keyed_def exclusive_def)

lemma registry_ok_sortPopups:
  assumes "registry_ok ps"
  shows "registry_ok (sortPopups e ps)"
proof -
  from assms have d: "distinct (map fst ps)" by (simp add: registry_ok_def registry_keyed_def)
  have s: "set (sortPopups e ps) = set ps" and d': "distinct (map fst (sortPopups e ps))"
    using sortPopups_entries [OF d] by simp_all
  have n: "new_Map (sort_js (zIndex_cmp e) ps) = sort_js (zIndex_cmp e) ps"
    using d by (simp add: new_Map_distinct sort_js_distinct)
  have c: "length (filter P (map snd (sortPopups e ps))) = length (filter P (map snd ps))" for P
    by (simp add: sortPopups_def n filter_map count_sort_js)
  from assms have k: "list_all (\<lambda>(k, popup). get popup ''id'' = k) (sortPopups e ps)"
    and t: "list_all (\<lambda>(k, popup). truthy k) (sortPopups e ps)"
    by (simp_all add: registry_ok_def registry_keyed_def list_all_iff s)
  from assms have "exclusive ps" by (simp add: registry_ok_def)
  then have "exclusive (sortPopups e ps)"
    by (rule exclusive_le) (simp only: c)
  with k t d' show ?thesis
    by (simp add: registry_ok_def registry_keyed_def)
qed

lemma beforeClosing_id: "get (fst (beforeClosing e popup)) ''id'' = get popup ''id''"
  by (simp add: beforeClosing_def Let_def get_put_other)

lemma beforeClosing_not_open: "\<not> open_at z (fst (beforeClosing e popup))"
  by (simp add: open_at_def beforeClosing_fields)

lemma keyed_lookup:
  "registry_keyed ps \<Longrightarrow> map_of ps k = Some p \<Longrightarrow> get p ''id'' = k"
  by (auto simp: registry_keyed_def list_all_iff dest: map_of_SomeD)

lemma truthy_lookup:
  "list_all (\<lambda>(k, popup). truthy k) ps \<Longrightarrow> map_of ps k = Some p \<Longrightarrow> truthy k"
  by (auto simp: list_all_iff dest: map_of_SomeD)

lemma registry_ok_replace:
  assumes ok: "registry_ok ps" and look: "map_of ps k = Some p"
    and same_id: "get v ''id'' = get p ''id''"
    and fewer: "\<And>z. open_at z v \<Longrightarrow> open_at z p"
  shows "registry_ok (AList.update k v ps)"
proof -
  from ok have keyed: "registry_keyed ps" and tr: "list_all (\<lambda>(k, popup). truthy k) ps"
    and ex: "exclusive ps" by (simp_all add: registry_ok_def)
  have "get v ''id'' = k" using keyed_lookup [OF keyed look] same_id by simp
  then have a: "registry_keyed (AList.update k v ps)" using keyed by (simp add: registry_keyed_update)
  have "truthy k" using tr look by (rule truthy_lookup)
  then have b: "list_all (\<lambda>(k, popup). truthy k) (AList.update k v ps)"
    using tr by (simp add: list_all_update)
  have c: "exclusive (AList.update k v ps)"
    using ex
  proof (rule exclusive_le)
    fix z
    show "length (filter (open_at z) (map snd (AList.update k v ps)))
            \<le> length (filter (open_at z) (map snd ps))"
      using look fewer [of z] by (intro count_update_replace) auto
  qed
  from a b c show ?thesis by (simp add: registry_ok_def)
qed

lemma registry_ok_removePopupImmediately:
  "registry_ok (popups w) \<Longrightarrow> registry_ok (popups (snd (removePopupImmediately pid w)))"
  by (simp add: removePopupImmediately_def setState_def invoke_def Let_def registry_ok_delete
      split: option.splits)

lemma registry_ok_removePopup:
  assumes "registry_ok (popups w)"
  shows "registry_ok (popups (removePopup e pid fu w))"
proof (cases "map_of (popups w) pid")
  case None
  with assms show ?thesis by (simp add: removePopup_def)
next
  case (Some popup)
  have "registry_ok (AList.update pid (fst (beforeClosing e popup)) (popups w))"
    using assms Some by (rule registry_ok_replace) (simp_all add: beforeClosing_id beforeClosing_not_open)
  with assms Some show ?thesis
    by (simp add: removePopup_def registry_ok_removePopupImmediately setState_def
        case_prod_beta Let_def)
qed

lemma registry_ok_removeAll:
  assumes "registry_ok (popups w)"
  shows "registry_ok (popups (removeAll_js filt w))"
proof (cases filt)
  case None
  with assms show ?thesis
    by (simp add: removeAll_js_def invoke_all_def setState_def Let_def registry_ok_empty)
next
  case (Some f)
  from assms have "registry_keyed (popups w)" by (simp add: registry_ok_def)
  then have "new_Map (map (\<lambda>popup. (get popup ''id'', popup))
                (filter (\<lambda>ob. \<not> f ob) (map snd (popups w))))
             = filter (\<lambda>(k, popup). \<not> f popup) (popups w)"
    by (rule new_Map_kept)
  with assms Some show ?thesis
    by (simp add: removeAll_js_def invoke_all_def setState_def Let_def registry_ok_filter
        registry_ok_empty)
qed

text \<open>
  A \<^verbatim>\<open>resetPopupProperty\<close> that cannot break exclusiveness: the key is not \<^verbatim>\<open>zIndex\<close>, or no
  record other than the one under \<open>pid\<close> is open at the new value.
\<close>

definition reset_harmless :: "jsval \<Rightarrow> string \<Rightarrow> jsval \<Rightarrow> registry \<Rightarrow> bool" where
  "reset_harmless pid key v ps =
     (key \<noteq> ''zIndex'' \<or> list_all (\<lambda>(k, popup). k = pid \<or> \<not> open_at v popup) ps)"

lemma registry_ok_resetPopupProperty:
  assumes ok: "registry_ok (popups w)" and harmless: "reset_harmless pid key v (popups w)"
  shows "registry_ok (popups (resetPopupProperty pid key v w))"
proof (cases "reset_rejected pid key w")
  case True
  with ok show ?thesis
    by (auto simp: reset_rejected_def resetPopupProperty_def split: option.splits)
next
  case False
  then obtain popup where
    k: "key \<noteq> []" "key \<noteq> ''id''" "hd key \<noteq> CHR ''_''"
    and look: "map_of (popups w) pid = Some popup"
    and r: "resetPopupProperty pid key v w =
              setState (AList.update pid (put key v popup) (popups w)) w"
    by (auto simp: reset_rejected_def resetPopupProperty_def split: option.splits)
  from k have nc: "key \<noteq> ''_closing''" by auto
  from ok have keyed: "registry_keyed (popups w)" and tr: "list_all (\<lambda>(k, popup). truthy k) (popups w)"
    and ex: "exclusive (popups w)" by (simp_all add: registry_ok_def)
  have id': "get (put key v popup) ''id'' = pid"
    using k keyed_lookup [OF keyed look] by (simp add: get_put_other)
  have a: "registry_keyed (AList.update pid (put key v popup) (popups w))"
    using keyed id' by (simp add: registry_keyed_update)
  have "truthy pid" using tr look by (rule truthy_lookup)
  then have b: "list_all (\<lambda>(k, popup). truthy k) (AList.update pid (put key v popup) (popups w))"
    using tr by (simp add: list_all_update)
  have c: "exclusive (AList.update pid (put key v popup) (popups w))"
    unfolding exclusive_def
  proof
    fix z
    show "length (filter (open_at z) (map snd (AList.update pid (put key v popup) (popups w)))) \<le> 1"
    proof (cases "key = ''zIndex'' \<and> strict_eq v z")
      case True
      then have vz: "v = z" by (simp add: strict_eq_def)
      from True harmless have "list_all (\<lambda>(k, popup). k = pid \<or> \<not> open_at z popup) (popups w)"
        by (simp add: reset_harmless_def vz)
      moreover from keyed have "distinct (map fst (popups w))" by (simp add: registry_keyed_def)
      ultimately show ?thesis by (rule count_update_alone [rotated])
    next
      case False
      have "open_at z (put key v popup) \<longrightarrow> open_at z popup"
      proof (cases "key = ''zIndex''")
        case True
        with False show ?thesis by (simp add: open_at_def get_put_same)
      next
        case False
        with nc show ?thesis by (simp add: open_at_def get_put_other)
      qed
      with look have "length (filter (open_at z) (map snd (AList.update pid (put key v popup) (popups w))))
            \<le> length (filter (open_at z) (map snd (popups w)))"
        by (rule count_update_replace)
      also have "\<dots> \<le> 1" using ex by (simp add: exclusive_def)
      finally show ?thesis .
    qed
  qed
  from a b c show ?thesis by (simp add: r setState_def registry_ok_def)
qed

lemma delete_split:
  "key \<notin> fst ` set before \<Longrightarrow> key \<notin> fst ` set after \<Longrightarrow>
   AList.delete key (before @ (key, p) # after) = before @ after"
  by (induction before) (auto simp: rev_image_eqI)

lemma update_split:
  "key \<notin> fst ` set before \<Longrightarrow>
   AList.update key v (before @ (key, p) # after) = before @ (key, v) # after"
  by (induction before) auto

lemma open_at_collides: "open_at z newPopup \<Longrightarrow> open_at z popup = collides newPopup popup"
  by (auto simp: open_at_def collides_def strict_eq_def)

lemma collides_open_at: "collides newPopup popup \<Longrightarrow> open_at (get newPopup ''zIndex'') popup"
  by (auto simp: open_at_def collides_def)

lemma none_open:
  "list_all (\<lambda>(k, p). \<not> collides newPopup p) ps \<Longrightarrow> open_at z newPopup \<Longrightarrow>
   filter (open_at z) (map snd ps) = []"
  by (induction ps) (auto simp: open_at_collides)

lemma closeSameZIndex_clears:
  assumes ok: "registry_ok (popups w)" and st: "stub w"
  shows "registry_ok (popups (snd (closeSameZIndex e (popups w) created w)))
     \<and> get (fst (closeSameZIndex e (popups w) created w)) ''id'' = get created ''id''
     \<and> (\<forall>z. open_at z (fst (closeSameZIndex e (popups w) created w)) \<longrightarrow>
            filter (open_at z) (map snd (popups (snd (closeSameZIndex e (popups w) created w)))) = [])"
proof (cases "list_all (\<lambda>(k, p). \<not> collides created p) (popups w)")
  case True
  then have "closeSameZIndex e (popups w) created w = (created, w)"
    by (intro closeSameZIndex_miss) (simp add: collides_def)
  with ok True show ?thesis by (simp add: none_open)
next
  case False
  then have "\<exists>x\<in>set (popups w). collides created (snd x)"
    by (fastforce simp: list_all_iff)
  then obtain before x after where
    sp0: "popups w = before @ x # after" and hit0: "collides created (snd x)"
    and miss0: "\<forall>y\<in>set before. \<not> collides created (snd y)"
    using split_list_first_prop [of "popups w" "\<lambda>x. collides created (snd x)"] by blast
  obtain key popup where x: "x = (key, popup)" by (cases x)
  from sp0 x have sp: "popups w = before @ (key, popup) # after" by simp
  from hit0 x have hit: "collides created popup" by simp
  from miss0 have miss: "list_all (\<lambda>(k, p). \<not> collides created p) before"
    by (auto simp: list_all_iff)
  let ?half = "js_half e (get popup ''duration'')"
  let ?np = "put ''delay'' ?half (put ''_maskDelay'' ?half created)"
  let ?w1 = "removePopup e key False w"
  have cz: "closeSameZIndex e (popups w) created w = (?np, ?w1)"
    unfolding sp using miss hit by (intro closeSameZIndex_hit) (simp_all add: collides_def)
  from ok have keyed: "registry_keyed (popups w)" and tr: "list_all (\<lambda>(k, popup). truthy k) (popups w)"
    and ex: "exclusive (popups w)" by (simp_all add: registry_ok_def)
  from keyed have dist: "distinct (map fst (popups w))" by (simp add: registry_keyed_def)
  from dist have kb: "key \<notin> fst ` set before" and ka: "key \<notin> fst ` set after"
    by (auto simp: sp)
  have "(key, popup) \<in> set (popups w)" by (simp add: sp)
  with dist have look: "map_of (popups w) key = Some popup" by (rule map_of_is_SomeI)
  have tk: "truthy key" using tr look by (rule truthy_lookup)
  from hit have nc: "\<not> truthy (get popup ''_closing'')" by (simp add: collides_def)
  let ?z0 = "get created ''zIndex''"
  have op: "open_at ?z0 popup" using hit by (rule collides_open_at)
  from ex have "length (filter (open_at ?z0) (map snd (popups w))) \<le> 1"
    by (simp add: exclusive_def)
  with op have zb: "filter (open_at ?z0) (map snd before) = []"
    and za: "filter (open_at ?z0) (map snd after) = []"
    by (simp_all add: sp filter_map)
  have w1: "popups ?w1 = before @ after
          \<or> popups ?w1 = before @ (key, fst (beforeClosing e popup)) # after"
  proof (cases "\<not> truthy (get popup ''animation'') \<or> \<not> truthy (get popup ''visible'')")
    case True
    with tk st look nc have "popups ?w1 = AList.delete key (popups w)"
      by (simp add: removePopup_def removePopupImmediately_Some)
    then show ?thesis by (simp add: sp delete_split [OF kb ka])
  next
    case False
    with tk st look nc have "popups ?w1 = AList.update key (fst (beforeClosing e popup)) (popups w)"
      by (simp add: removePopup_closing)
    then show ?thesis by (simp add: sp update_split [OF kb])
  qed
  have clear: "filter (open_at z) (map snd (popups ?w1)) = []" if "open_at z ?np" for z
  proof -
    from that have "z = ?z0" by (auto simp: open_at_def strict_eq_def get_put_other)
    with w1 zb za show ?thesis by (auto simp: beforeClosing_not_open)
  qed
  have "registry_ok (popups ?w1)" using ok by (rule registry_ok_removePopup)
  with clear show ?thesis by (simp add: cz get_put_other)
qed

lemma registry_ok_addPopup:
  assumes ok: "registry_ok (popups w)"
    and ids: "\<And>element option pr. truthy (get (createPopup e element option pr) ''id'')"
  shows "registry_ok (popups (snd (addPopup e element option w)))"
proof (cases "truthy element \<and> stub w")
  case False
  with ok show ?thesis by (auto simp: addPopup_def)
next
  case True
  let ?created = "createPopup e element (orderedOption (orderId w) option) (props w)"
  let ?w0 = "w\<lparr>orderId := next_orderId (orderId w)\<rparr>"
  let ?cz = "closeSameZIndex e (popups w) ?created ?w0"
  let ?ps = "AList.update (get (fst ?cz) ''id'') (fst ?cz) (popups (snd ?cz))"
  have "registry_ok (popups ?w0)" "stub ?w0" using ok True by simp_all
  from closeSameZIndex_clears [OF this, of e ?created]
  have ok1: "registry_ok (popups (snd ?cz))"
    and id1: "get (fst ?cz) ''id'' = get ?created ''id''"
    and clear: "\<And>z. open_at z (fst ?cz) \<Longrightarrow> filter (open_at z) (map snd (popups (snd ?cz))) = []"
    by simp_all
  from ok1 have keyed: "registry_keyed (popups (snd ?cz))"
    and tr: "list_all (\<lambda>(k, popup). truthy k) (popups (snd ?cz))"
    and ex: "exclusive (popups (snd ?cz))" by (simp_all add: registry_ok_def)
  have a: "registry_keyed ?ps" using keyed by (simp add: registry_keyed_update)
  have "truthy (get (fst ?cz) ''id'')" by (simp add: id1 ids)
  then have b: "list_all (\<lambda>(k, popup). truthy k) ?ps" using tr by (simp add: list_all_update)
  have c: "exclusive ?ps"
    unfolding exclusive_def
  proof
    fix z
    have le: "length (filter (open_at z) (map snd ?ps))
        \<le> length (filter (open_at z) (map snd (popups (snd ?cz)))) + (if open_at z (fst ?cz) then 1 else 0)"
      by (rule count_update_le)
    show "length (filter (open_at z) (map snd ?ps)) \<le> 1"
    proof (cases "open_at z (fst ?cz)")
      case True
      with le clear [OF True] show ?thesis by simp
    next
      case False
      moreover from ex have "length (filter (open_at z) (map snd (popups (snd ?cz)))) \<le> 1"
        by (simp add: exclusive_def)
      ultimately show ?thesis using le by simp
    qed
  qed
  from a b c have "registry_ok ?ps" by (simp add: registry_ok_def)
  then have "registry_ok (sortPopups e ?ps)" by (rule registry_ok_sortPopups)
  moreover have "popups (snd (addPopup e element option w)) = sortPopups e ?ps"
    using True by (simp add: addPopup_steps Let_def setState_def invoke_def)
  ultimately show ?thesis by simp
qed

text \<open>The operations on the registry, and runs of them.\<close>

datatype op =
    AddPopup jsval obj
  | RemovePopup jsval bool
  | RemovePopupImmediately jsval
  | ResetPopupProperty jsval string jsval
  | RemoveAll "(obj \<Rightarrow> bool) option"

fun apply_op :: "env \<Rightarrow> op \<Rightarrow> world \<Rightarrow> world" where
  "apply_op e (AddPopup element option) w = snd (addPopup e element option w)"
| "apply_op e (RemovePopup pid forceUpdate) w = removePopup e pid forceUpdate w"
| "apply_op e (RemovePopupImmediately pid) w = snd (removePopupImmediately pid w)"
| "apply_op e (ResetPopupProperty pid key v) w = resetPopupProperty pid key v w"
| "apply_op e (RemoveAll filt) w = removeAll_js filt w"

fun run :: "env \<Rightarrow> op list \<Rightarrow> world \<Rightarrow> world" where
  "run e [] w = w"
| "run e (x # xs) w = run e xs (apply_op e x w)"

fun op_harmless :: "op \<Rightarrow> world \<Rightarrow> bool" where
  "op_harmless (ResetPopupProperty pid key v) w = reset_harmless pid key v (popups w)"
| "op_harmless x w = True"

text \<open>A run in which every \<^verbatim>\<open>resetPopupProperty\<close> is harmless in the state it meets.\<close>

fun harmless :: "env \<Rightarrow> op list \<Rightarrow> world \<Rightarrow> bool" where
  "harmless e [] w = True"
| "harmless e (x # xs) w = (op_harmless x w \<and> harmless e xs (apply_op e x w))"

lemma registry_ok_apply_op:
  assumes "registry_ok (popups w)" and "op_harmless x w"
    and "\<And>element option pr. truthy (get (createPopup e element option pr) ''id'')"
  shows "registry_ok (popups (apply_op e x w))"
  using assms
  by (cases x)
     (simp_all add: registry_ok_addPopup registry_ok_removePopup registry_ok_removePopupImmediately
        registry_ok_resetPopupProperty registry_ok_removeAll)

lemma registry_ok_run:
  assumes "\<And>element option pr. truthy (get (createPopup e element option pr) ''id'')"
  shows "registry_ok (popups w) \<Longrightarrow> harmless e xs w \<Longrightarrow> registry_ok (popups (run e xs w))"
proof (induction xs arbitrary: w)
  case Nil
  then show ?case by simp
next
  case (Cons x xs)
  from Cons.prems have "registry_ok (popups (apply_op e x w))"
    using assms by (intro registry_ok_apply_op) simp_all
  moreover from Cons.prems have "harmless e xs (apply_op e x w)" by simp
  ultimately show ?case using Cons.IH by simp
qed

text \<open>
  Claim C7, as amended. Let the factory give every popup a truthy id. Then in every state
  reached from an empty registry by \<^verbatim>\<open>addPopup\<close>, \<^verbatim>\<open>removePopup\<close>, \<^verbatim>\<open>removePopupImmediately\<close>,
  \<^verbatim>\<open>removeAll\<close> and such \<^verbatim>\<open>resetPopupProperty\<close> calls as do not set \<^verbatim>\<open>zIndex\<close> to a value at
  which another record is open, there is for every \<^verbatim>\<open>zIndex\<close> value at most one registered
  record with that \<^verbatim>\<open>zIndex\<close> that is not closing.
\<close>

theorem zIndex_exclusive_reachable:
  assumes "\<forall>element option pr. truthy (get (createPopup e element option pr) ''id'')"
    and "popups w = []"
    and "harmless e xs w"
  shows "exclusive (popups (run e xs w))"
proof -
  from assms(2) have "registry_ok (popups w)" by (simp add: registry_ok_empty)
  with assms(1,3) have "registry_ok (popups (run e xs w))"
    by (intro registry_ok_run) simp_all
  then show ?thesis by (simp add: registry_ok_def)
qed

text \<open>A factory that keeps the option's id when it is truthy and makes one up otherwise.\<close>

definition keyed_env :: env where
  "keyed_env = \<lparr>createPopup = (\<lambda>element option pr.
                    if truthy (get option ''id'') then option
                    else put ''id'' (JStr ''generated'') option),
                 reverseKeyframes = (\<lambda>v. v), coerce = (\<lambda>v. JNaN),
                 callResult = (\<lambda>f args. JBool False)\<rparr>"

definition card_option :: obj where
  "card_option = [(''id'', JStr ''card''), (''zIndex'', JNum 1), (''visible'', JBool True),
                  (''animation'', JStr ''fadeIn''), (''duration'', JNum 300)]"

definition busy_run :: "op list" where
  "busy_run = [AddPopup (JObj 1) card_option, AddPopup (JObj 2) next_option,
               ResetPopupProperty (JStr ''next'') ''zIndex'' (JNum 7),
               AddPopup (JObj 3) [(''zIndex'', JNum 1)],
               RemovePopupImmediately (JStr ''card''), RemoveAll None]"

theorem zIndex_exclusive_reachable_witness:
  "(\<forall>element option pr. truthy (get (createPopup keyed_env element option pr) ''id''))
   \<and> popups (example_world []) = []
   \<and> harmless keyed_env busy_run (example_world [])
   \<and> exclusive (popups (run keyed_env busy_run (example_world [])))"
proof -
  have a: "\<forall>element option pr. truthy (get (createPopup keyed_env element option pr) ''id'')"
    by (simp add: keyed_env_def get_put_same)
  have b: "popups (example_world []) = []" by (simp add: example_world_def)
  have c: "harmless keyed_env busy_run (example_world [])"
    by (simp add: busy_run_def reset_harmless_def open_at_def card_option_def next_option_def
      addPopup_def removePopup_def beforeClosing_def sortPopups_def keyed_env_def
      new_Map_def sort_js_def zIndex_cmp_def js_sub_def js_half_def strict_eq_def put_def get_def
      setState_def invoke_def orderedOption_def spread_def example_world_def Let_def)
  from a b c zIndex_exclusive_reachable [OF a b c] show ?thesis by simp
qed

definition clash_run :: "op list" where
  "clash_run = [AddPopup (JObj 1) [(''id'', JStr ''a''), (''zIndex'', JNum 1)],
                AddPopup (JObj 2) [(''id'', JStr ''b''), (''zIndex'', JNum 2)],
                ResetPopupProperty (JStr ''b'') ''zIndex'' (JNum 1)]"

text \<open>
  Claim C7 as stated fails: after two adds with the \<^verbatim>\<open>zIndex\<close> values 1 and 2,
  \<^verbatim>\<open>resetPopupProperty('b', 'zIndex', 1)\<close> leaves two records open at \<^verbatim>\<open>zIndex\<close> 1, since the
  reset looks at no other record.
\<close>

theorem resetPopupProperty_zIndex_counterexample:
  "popups (run example_env clash_run (example_world []))
     = [(JStr ''a'', [(''_orderId'', JNum 0), (''id'', JStr ''a''), (''zIndex'', JNum 1)]),
        (JStr ''b'', [(''_orderId'', JNum 1), (''id'', JStr ''b''), (''zIndex'', JNum 1)])]
   \<and> length (filter (open_at (JNum 1)) (map snd (popups (run example_env clash_run (example_world []))))) = 2
   \<and> \<not> exclusive (popups (run example_env clash_run (example_world [])))"
proof -
  have p: "popups (run example_env clash_run (example_world []))
     = [(JStr ''a'', [(''_orderId'', JNum 0), (''id'', JStr ''a''), (''zIndex'', JNum 1)]),
        (JStr ''b'', [(''_orderId'', JNum 1), (''id'', JStr ''b''), (''zIndex'', JNum 1)])]"
    by (simp add: clash_run_def addPopup_def next_orderId_def resetPopupProperty_def sortPopups_def
      new_Map_def sort_js_def zIndex_cmp_def js_sub_def strict_eq_def put_def get_def
      setState_def invoke_def orderedOption_def spread_def example_env_def example_world_def
      hasOwnProperty_def Let_def)
  have n: "length (filter (open_at (JNum 1)) (map snd (popups (run example_env clash_run (example_world []))))) = 2"
    by (simp add: p open_at_def get_def strict_eq_def)
  have "\<not> exclusive (popups (run example_env clash_run (example_world [])))"
  proof
    assume "exclusive (popups (run example_env clash_run (example_world [])))"
    then have "length (filter (open_at (JNum 1))
        (map snd (popups (run example_env clash_run (example_world []))))) \<le> 1"
      by (simp add: exclusive_def)
    with n show False by simp
  qed
  with p n show ?thesis by simp
qed

section \<open>What the back button does to its candidate\<close>

lemma removePopup_closing_commit:
  assumes "truthy key" and "stub w" and "map_of (popups w) key = Some popup"
    and "\<not> truthy (get popup ''_closing'')"
    and "truthy (get popup ''animation'')" and "truthy (get popup ''visible'')"
  shows "removePopup e key True w =
     w\<lparr>popups := AList.update key (fst (beforeClosing e popup)) (popups w),
       timers := timers w @ snd (beforeClosing e popup),
       trace := trace w @ [Commit (AList.update key (fst (beforeClosing e popup)) (popups w))]\<rparr>"
  using assms by (simp add: removePopup_def case_prod_beta Let_def setState_def)

lemma keyed_member_lookup:
  assumes "registry_keyed ps" and "c \<in> set (map snd ps)"
  shows "map_of ps (get c ''id'') = Some c"
proof -
  from assms(2) obtain k where k: "(k, c) \<in> set ps" by auto
  with assms(1) have "get c ''id'' = k" by (auto simp: registry_keyed_def list_all_iff)
  moreover from assms(1) k have "map_of ps k = Some c"
    by (simp add: registry_keyed_def)
  ultimately show ?thesis by simp
qed

text \<open>
  Claim C3, as amended. Take a registry keyed by the records' ids whose eligible records
  carry a number as \<^verbatim>\<open>_orderId\<close>. The back handler returns false on an empty registry and
  when no record is visible and not closing. Otherwise its candidate is an eligible record
  whose \<^verbatim>\<open>_orderId\<close> no eligible record exceeds. With a truthy \<^verbatim>\<open>autoClose\<close> the handler
  returns true after \<^verbatim>\<open>removePopup\<close> on the candidate's id: an animated candidate is put into
  the closing state and committed, one without animation is deleted and its \<^verbatim>\<open>onClosed\<close>
  called, and with a falsy id or without \<^verbatim>\<open>PopupStub.stub\<close> nothing changes. Without
  \<^verbatim>\<open>autoClose\<close> the handler returns what the candidate's \<^verbatim>\<open>onPressBack(id)\<close> returns when
  that is a function, and throws a \<^verbatim>\<open>TypeError\<close> when it is not.
\<close>

theorem onBackAndroid_outcome:
  assumes keyed: "registry_keyed (popups w)"
    and num: "\<forall>p\<in>set (map snd (popups w)). eligible p \<longrightarrow> is_number (get p ''_orderId'')"
  shows "(popups w = [] \<longrightarrow> onBackAndroid e w = Inr (JBool False, w))
    \<and> ((\<forall>p\<in>set (map snd (popups w)). \<not> eligible p) \<longrightarrow> onBackAndroid e w = Inr (JBool False, w))
    \<and> ((\<exists>p\<in>set (map snd (popups w)). eligible p) \<longrightarrow>
         (\<exists>c\<in>set (map snd (popups w)). eligible c
            \<and> (\<forall>p\<in>set (map snd (popups w)). eligible p \<longrightarrow> orderNum p \<le> orderNum c)
            \<and> map_of (popups w) (get c ''id'') = Some c
            \<and> (truthy (get c ''autoClose'') \<and> truthy (get c ''id'') \<and> stub w
                 \<and> truthy (get c ''animation'') \<longrightarrow>
                  onBackAndroid e w =
                    Inr (JBool True,
                         w\<lparr>popups := AList.update (get c ''id'') (fst (beforeClosing e c)) (popups w),
                           timers := timers w @ snd (beforeClosing e c),
                           trace := trace w @
                             [Commit (AList.update (get c ''id'') (fst (beforeClosing e c)) (popups w))]\<rparr>)
                  \<and> get (fst (beforeClosing e c)) ''_closing'' = JBool True)
            \<and> (truthy (get c ''autoClose'') \<and> truthy (get c ''id'') \<and> stub w
                 \<and> \<not> truthy (get c ''animation'') \<longrightarrow>
                  onBackAndroid e w =
                    Inr (JBool True,
                         w\<lparr>popups := AList.delete (get c ''id'') (popups w),
                           trace := trace w @ Commit (AList.delete (get c ''id'') (popups w))
                             # (if isFunction (get c ''onClosed'')
                                then [Invoke (get c ''onClosed'') []] else [])\<rparr>))
            \<and> (truthy (get c ''autoClose'') \<and> (\<not> truthy (get c ''id'') \<or> \<not> stub w) \<longrightarrow>
                  onBackAndroid e w = Inr (JBool True, w))
            \<and> (\<not> truthy (get c ''autoClose'') \<and> isFunction (get c ''onPressBack'') \<longrightarrow>
                  onBackAndroid e w =
                    Inr (callResult e (get c ''onPressBack'') [get c ''id''],
                         invoke (get c ''onPressBack'') [get c ''id''] w))
            \<and> (\<not> truthy (get c ''autoClose'') \<and> \<not> isFunction (get c ''onPressBack'') \<longrightarrow>
                  onBackAndroid e w = Inl TypeError)))"
proof (intro conjI impI)
  show "onBackAndroid e w = Inr (JBool False, w)" if "popups w = []"
    using that by (simp add: onBackAndroid_def)
next
  assume none: "\<forall>p\<in>set (map snd (popups w)). \<not> eligible p"
  show "onBackAndroid e w = Inr (JBool False, w)"
  proof (cases "popups w = []")
    case True
    then show ?thesis by (simp add: onBackAndroid_def)
  next
    case False
    let ?c = "last (sort_js (back_cmp e) (map snd (popups w)))"
    from False have "sort_js (back_cmp e) (map snd (popups w)) \<noteq> []"
      by (simp add: sort_js_nonempty)
    then have "?c \<in> set (sort_js (back_cmp e) (map snd (popups w)))" by (rule last_in_set)
    then have "?c \<in> set (map snd (popups w))" by (simp only: sort_js_set)
    with none have "\<not> eligible ?c" by blast
    then show ?thesis using False by (auto simp: onBackAndroid_def Let_def eligible_def)
  qed
next
  assume some: "\<exists>p\<in>set (map snd (popups w)). eligible p"
  let ?c = "last (sort_js (back_cmp e) (map snd (popups w)))"
  let ?id = "get ?c ''id''"
  from some have ne: "popups w \<noteq> []" by auto
  then have "sort_js (back_cmp e) (map snd (popups w)) \<noteq> []"
    by (simp add: sort_js_nonempty)
  then have "?c \<in> set (sort_js (back_cmp e) (map snd (popups w)))" by (rule last_in_set)
  then have mem: "?c \<in> set (map snd (popups w))" by (simp only: sort_js_set)
  from back_sort_last [OF num some, of e]
  have el: "eligible ?c"
    and mx: "\<forall>p\<in>set (map snd (popups w)). eligible p \<longrightarrow> orderNum p \<le> orderNum ?c"
    by simp_all
  from el have nc: "\<not> truthy (get ?c ''_closing'')" and vis: "truthy (get ?c ''visible'')"
    by (simp_all add: eligible_def)
  have look: "map_of (popups w) ?id = Some ?c"
    using keyed mem by (rule keyed_member_lookup)
  have auto_case: "onBackAndroid e w = Inr (JBool True, removePopup e ?id True w)"
    if "truthy (get ?c ''autoClose'')"
    using that ne nc vis by (simp add: onBackAndroid_def Let_def)
  have manual: "onBackAndroid e w =
      (if isFunction (get ?c ''onPressBack'')
       then Inr (callResult e (get ?c ''onPressBack'') [?id], invoke (get ?c ''onPressBack'') [?id] w)
       else Inl TypeError)"
    if "\<not> truthy (get ?c ''autoClose'')"
    using that ne nc vis by (simp add: onBackAndroid_def Let_def)
  have A: "onBackAndroid e w =
              Inr (JBool True,
                   w\<lparr>popups := AList.update ?id (fst (beforeClosing e ?c)) (popups w),
                     timers := timers w @ snd (beforeClosing e ?c),
                     trace := trace w @ [Commit (AList.update ?id (fst (beforeClosing e ?c)) (popups w))]\<rparr>)
            \<and> get (fst (beforeClosing e ?c)) ''_closing'' = JBool True"
    if "truthy (get ?c ''autoClose'') \<and> truthy ?id \<and> stub w \<and> truthy (get ?c ''animation'')"
    using that auto_case look nc vis
    by (simp add: removePopup_closing_commit beforeClosing_fields)
  have B: "onBackAndroid e w =
              Inr (JBool True,
                   w\<lparr>popups := AList.delete ?id (popups w),
                     trace := trace w @ Commit (AList.delete ?id (popups w))
                       # (if isFunction (get ?c ''onClosed'') then [Invoke (get ?c ''onClosed'') []] else [])\<rparr>)"
    if "truthy (get ?c ''autoClose'') \<and> truthy ?id \<and> stub w \<and> \<not> truthy (get ?c ''animation'')"
    using that auto_case look nc
    by (simp add: removePopup_immediate)
  have C: "onBackAndroid e w = Inr (JBool True, w)"
    if "truthy (get ?c ''autoClose'') \<and> (\<not> truthy ?id \<or> \<not> stub w)"
    using that auto_case by (auto simp: removePopup_def)
  have D: "onBackAndroid e w =
              Inr (callResult e (get ?c ''onPressBack'') [?id], invoke (get ?c ''onPressBack'') [?id] w)"
    if "\<not> truthy (get ?c ''autoClose'') \<and> isFunction (get ?c ''onPressBack'')"
    using that manual by simp
  have E: "onBackAndroid e w = Inl TypeError"
    if "\<not> truthy (get ?c ''autoClose'') \<and> \<not> isFunction (get ?c ''onPressBack'')"
    using that manual by simp
  show "\<exists>c\<in>set (map snd (popups w)). eligible c
            \<and> (\<forall>p\<in>set (map snd (popups w)). eligible p \<longrightarrow> orderNum p \<le> orderNum c)
            \<and> map_of (popups w) (get c ''id'') = Some c
            \<and> (truthy (get c ''autoClose'') \<and> truthy (get c ''id'') \<and> stub w
                 \<and> truthy (get c ''animation'') \<longrightarrow>
                  onBackAndroid e w =
                    Inr (JBool True,
                         w\<lparr>popups := AList.update (get c ''id'') (fst (beforeClosing e c)) (popups w),
                           timers := timers w @ snd (beforeClosing e c),
                           trace := trace w @
                             [Commit (AList.update (get c ''id'') (fst (beforeClosing e c)) (popups w))]\<rparr>)
                  \<and> get (fst (beforeClosing e c)) ''_closing'' = JBool True)
            \<and> (truthy (get c ''autoClose'') \<and> truthy (get c ''id'') \<and> stub w
                 \<and> \<not> truthy (get c ''animation'') \<longrightarrow>
                  onBackAndroid e w =
                    Inr (JBool True,
                         w\<lparr>popups := AList.delete (get c ''id'') (popups w),
                           trace := trace w @ Commit (AList.delete (get c ''id'') (popups w))
                             # (if isFunction (get c ''onClosed'')
                                then [Invoke (get c ''onClosed'') []] else [])\<rparr>))
            \<and> (truthy (get c ''autoClose'') \<and> (\<not> truthy (get c ''id'') \<or> \<not> stub w) \<longrightarrow>
                  onBackAndroid e w = Inr (JBool True, w))
            \<and> (\<not> truthy (get c ''autoClose'') \<and> isFunction (get c ''onPressBack'') \<longrightarrow>
                  onBackAndroid e w =
                    Inr (callResult e (get c ''onPressBack'') [get c ''id''],
                         invoke (get c ''onPressBack'') [get c ''id''] w))
            \<and> (\<not> truthy (get c ''autoClose'') \<and> \<not> isFunction (get c ''onPressBack'') \<longrightarrow>
                  onBackAndroid e w = Inl TypeError)"
    using mem el mx look A B C D E by (intro bexI [of _ ?c]) blast+
qed

definition layer :: "string \<Rightarrow> rat \<Rightarrow> bool \<Rightarrow> nat \<Rightarrow> obj" where
  "layer name n auto f =
     [(''id'', JStr name), (''zIndex'', JNum n), (''_orderId'', JNum n), (''visible'', JBool True),
      (''_closing'', JBool False), (''autoClose'', JBool auto), (''onPressBack'', JFun f)]"

definition back_stack :: registry where
  "back_stack = [(JStr ''first'', layer ''first'' 1 True 31),
                 (JStr ''third'', layer ''third'' 3 False 33),
                 (JStr ''second'', layer ''second'' 2 True 32)]"

definition dialog :: obj where
  "dialog = [(''id'', JStr ''dialog''), (''zIndex'', JNum 4), (''_orderId'', JNum 4),
             (''visible'', JBool True), (''_closing'', JBool False), (''autoClose'', JBool True),
             (''animation'', JStr ''fadeIn''), (''duration'', JNum 300)]"

definition dialog_closing :: obj where
  "dialog_closing = [(''id'', JStr ''dialog''), (''zIndex'', JNum 4), (''_orderId'', JNum 4),
             (''visible'', JBool True), (''_closing'', JBool True), (''autoClose'', JBool True),
             (''animation'', JStr ''fadeIn''), (''duration'', JNum 300), (''delay'', JNum 0),
             (''direction'', JStr ''reverse''), (''closingAnimation'', JStr ''fadeIn'')]"

theorem onBackAndroid_outcome_witness:
  "registry_keyed back_stack
   \<and> list_all (\<lambda>p. eligible p \<and> is_number (get p ''_orderId'')) (map snd back_stack)
   \<and> onBackAndroid example_env (example_world back_stack)
       = Inr (JBool False, invoke (JFun 33) [JStr ''third''] (example_world back_stack))
   \<and> onBackAndroid example_env (example_world []) = Inr (JBool False, example_world [])
   \<and> onBackAndroid example_env (example_world [(JStr ''toast'', toast)])
       = Inr (JBool False, example_world [(JStr ''toast'', toast)])
   \<and> onBackAndroid example_env (example_world [(JStr ''first'', layer ''first'' 1 True 31)])
       = Inr (JBool True, \<lparr>stub = True, orderId = 0, props = [], popups = [], timers = [],
                             trace = [Commit []]\<rparr>)
   \<and> onBackAndroid example_env
         (example_world [(JStr ''dialog'', dialog), (JStr ''first'', layer ''first'' 1 True 31)])
       = Inr (JBool True,
              \<lparr>stub = True, orderId = 0, props = [],
               popups = [(JStr ''dialog'', dialog_closing), (JStr ''first'', layer ''first'' 1 True 31)],
               timers = [(JClosure (JStr ''dialog''), JNum 300)],
               trace = [Commit [(JStr ''dialog'', dialog_closing),
                                (JStr ''first'', layer ''first'' 1 True 31)]]\<rparr>)"
  using onBackAndroid_outcome [of "example_world back_stack" example_env]
        onBackAndroid_outcome [of "example_world []" example_env]
        onBackAndroid_outcome [of "example_world [(JStr ''toast'', toast)]" example_env]
        onBackAndroid_outcome [of "example_world [(JStr ''first'', layer ''first'' 1 True 31)]" example_env]
  by (simp add: registry_keyed_def back_stack_def layer_def eligible_def get_def put_def
      example_world_def toast_def dialog_def dialog_closing_def
      onBackAndroid_def removePopup_def removePopupImmediately_def beforeClosing_def
      setState_def invoke_def sort_js_def back_cmp_def js_sub_def example_env_def Let_def)

text \<open>Records for the cases the handler does not meet the claim in.\<close>

definition numbered :: obj where
  "numbered = [(''id'', JStr ''a''), (''_orderId'', JNum 5), (''visible'', JBool True),
               (''_closing'', JBool False), (''autoClose'', JBool False), (''onPressBack'', JFun 1)]"

definition unnumbered :: obj where
  "unnumbered = [(''id'', JStr ''b''), (''visible'', JBool True),
                 (''_closing'', JBool False), (''autoClose'', JBool False), (''onPressBack'', JFun 2)]"

definition mute :: obj where
  "mute = [(''id'', JStr ''mute''), (''_orderId'', JNum 0), (''visible'', JBool True),
           (''_closing'', JBool False), (''autoClose'', JBool False)]"

text \<open>
  Claim C3 as stated fails in three states: without \<^verbatim>\<open>PopupStub.stub\<close> the handler returns
  true and the \<^verbatim>\<open>autoClose\<close> candidate stays registered and open; with an eligible record
  that has no \<^verbatim>\<open>_orderId\<close> the handler passes over the record with \<^verbatim>\<open>_orderId\<close> 5; and a
  candidate without \<^verbatim>\<open>onPressBack\<close> makes the handler throw.
\<close>

theorem onBackAndroid_guard_counterexample:
  "eligible (layer ''first'' 1 True 31) \<and> truthy (get (layer ''first'' 1 True 31) ''autoClose'')
   \<and> onBackAndroid example_env
         ((example_world [(JStr ''first'', layer ''first'' 1 True 31)])\<lparr>stub := False\<rparr>)
       = Inr (JBool True, (example_world [(JStr ''first'', layer ''first'' 1 True 31)])\<lparr>stub := False\<rparr>)
   \<and> eligible numbered \<and> eligible unnumbered
   \<and> get numbered ''_orderId'' = JNum 5 \<and> get unnumbered ''_orderId'' = JUndefined
   \<and> onBackAndroid example_env (example_world [(JStr ''a'', numbered), (JStr ''b'', unnumbered)])
       = Inr (JBool False, invoke (JFun 2) [JStr ''b'']
               (example_world [(JStr ''a'', numbered), (JStr ''b'', unnumbered)]))
   \<and> eligible mute \<and> \<not> truthy (get mute ''autoClose'')
   \<and> onBackAndroid example_env (example_world [(JStr ''mute'', mute)]) = Inl TypeError"
  by (simp add: layer_def eligible_def get_def example_world_def numbered_def unnumbered_def mute_def
      onBackAndroid_def removePopup_def sort_js_def back_cmp_def js_sub_def example_env_def Let_def)

section \<open>The creation sequence number\<close>

text \<open>
  A run of \<^verbatim>\<open>addPopup\<close> calls, each an element and an option object. It returns, for the calls
  that pass the guard of line 178 and in their order, the \<^verbatim>\<open>_orderId\<close> of the record that
  \<^verbatim>\<open>addPopup\<close> has registered under the id it returned, and the final state.
\<close>

fun addPopups :: "env \<Rightarrow> (jsval \<times> obj) list \<Rightarrow> world \<Rightarrow> jsval list \<times> world" where
  "addPopups e [] w = ([], w)"
| "addPopups e ((element, option) # rest) w =
     (let (pid, w') = addPopup e element option w;
          registered = (if truthy element \<and> stub w
                        then (case map_of (popups w') pid of
                                Some popup \<Rightarrow> [get popup ''_orderId'']
                              | None \<Rightarrow> [JUndefined])
                        else []);
          (more, w'') = addPopups e rest w'
      in (registered @ more, w''))"

lemma get_spread_other:
  "k \<notin> set (map fst src) \<Longrightarrow> get (spread base src) k = get base k"
proof (induction src arbitrary: base)
  case Nil
  then show ?case by (simp add: spread_def)
next
  case (Cons p src)
  obtain k' v where p: "p = (k', v)" by (cases p)
  from Cons.prems have "k \<noteq> k'" and "k \<notin> set (map fst src)" by (auto simp: p)
  with Cons.IH [of "put k' v base"] show ?case
    by (simp add: spread_def p get_put_other)
qed

lemma orderedOption_default:
  "\<not> hasOwnProperty option ''_orderId'' \<Longrightarrow>
   get (orderedOption n option) ''_orderId'' = JNum (of_nat n)"
  by (simp add: orderedOption_def hasOwnProperty_def get_spread_other) (simp add: get_def)

text \<open>One \<^verbatim>\<open>_orderId\<close> lies strictly below another: both are numbers, in that order.\<close>

fun js_less :: "jsval \<Rightarrow> jsval \<Rightarrow> bool" where
  "js_less (JNum x) (JNum y) = (x < y)"
| "js_less a b = False"

lemma closeSameZIndex_fst:
  "fst (closeSameZIndex e ps created w) = created
   \<or> (\<exists>half. fst (closeSameZIndex e ps created w)
                = put ''delay'' half (put ''_maskDelay'' half created))"
  by (induction e ps created w rule: closeSameZIndex.induct) (auto simp: Let_def)

lemma closeSameZIndex_keeps:
  "k \<noteq> ''delay'' \<Longrightarrow> k \<noteq> ''_maskDelay'' \<Longrightarrow>
   get (fst (closeSameZIndex e ps created w)) k = get created k"
  using closeSameZIndex_fst [of e ps created w] by (auto simp: get_put_other)

lemma closeSameZIndex_distinct:
  "distinct (map fst (popups w)) \<Longrightarrow>
   distinct (map fst (popups (snd (closeSameZIndex e ps created w))))"
  by (induction e ps created w rule: closeSameZIndex.induct)
     (simp_all add: removePopup_distinct Let_def)

text \<open>What one \<^verbatim>\<open>addPopup\<close> that passes the guard registers.\<close>

lemma addPopup_registers:
  assumes el: "truthy element" and st: "stub w" and dist: "distinct (map fst (popups w))"
  shows "\<exists>newPopup. map_of (popups (snd (addPopup e element option w)))
                      (fst (addPopup e element option w)) = Some newPopup
           \<and> get newPopup ''_orderId'' = get (created_popup e element option w) ''_orderId''"
    and "distinct (map fst (popups (snd (addPopup e element option w))))"
proof -
  let ?created = "createPopup e element (orderedOption (orderId w) option) (props w)"
  let ?w0 = "w\<lparr>orderId := next_orderId (orderId w)\<rparr>"
  let ?cz = "closeSameZIndex e (popups w) ?created ?w0"
  let ?ps = "AList.update (get (fst ?cz) ''id'') (fst ?cz) (popups (snd ?cz))"
  have "distinct (map fst (popups ?w0))" using dist by simp
  then have "distinct (map fst (popups (snd ?cz)))" by (rule closeSameZIndex_distinct)
  then have d: "distinct (map fst ?ps)" by (rule distinct_update)
  have r: "fst (addPopup e element option w) = get (fst ?cz) ''id''"
    and p: "popups (snd (addPopup e element option w)) = sortPopups e ?ps"
    by (simp_all add: addPopup_steps [OF el st] Let_def setState_def invoke_def)
  have "map_of (sortPopups e ?ps) (get (fst ?cz) ''id'') = Some (fst ?cz)"
    by (simp add: sortPopups_entries(3) [OF d] update_conv')
  moreover have "get (fst ?cz) ''_orderId'' = get ?created ''_orderId''"
    by (simp add: closeSameZIndex_keeps)
  ultimately show "\<exists>newPopup. map_of (popups (snd (addPopup e element option w)))
                      (fst (addPopup e element option w)) = Some newPopup
           \<and> get newPopup ''_orderId'' = get (created_popup e element option w) ''_orderId''"
    by (simp add: r p created_popup_def)
  show "distinct (map fst (popups (snd (addPopup e element option w))))"
    by (simp add: p sortPopups_entries(2) [OF d])
qed

lemma addPopup_unguarded_popups:
  "\<not> (truthy element \<and> stub w) \<Longrightarrow> popups (snd (addPopup e element option w)) = popups w"
  by (auto simp: addPopup_def)

lemma addPopups_counter:
  assumes keeps: "\<And>element option pr.
      get (createPopup e element option pr) ''_orderId'' = get option ''_orderId''"
  shows "list_all (\<lambda>(element, option). \<not> hasOwnProperty option ''_orderId'') reqs \<Longrightarrow>
         distinct (map fst (popups w)) \<Longrightarrow> orderId w + length reqs \<le> 2 ^ 53 \<Longrightarrow>
         fst (addPopups e reqs w) =
           map (\<lambda>n. JNum (of_nat n)) [orderId w ..< orderId (snd (addPopups e reqs w))]
         \<and> orderId w \<le> orderId (snd (addPopups e reqs w))"
proof (induction reqs arbitrary: w)
  case Nil
  then show ?case by simp
next
  case (Cons r reqs)
  obtain element option where r: "r = (element, option)" by (cases r)
  let ?w' = "snd (addPopup e element option w)"
  let ?end = "orderId (snd (addPopups e reqs ?w'))"
  from Cons.prems(1) have own: "\<not> hasOwnProperty option ''_orderId''"
    and rest: "list_all (\<lambda>(element, option). \<not> hasOwnProperty option ''_orderId'') reqs"
    by (simp_all add: r)
  from Cons.prems(3) have below: "orderId w < 2 ^ 53" by simp
  show ?case
  proof (cases "truthy element \<and> stub w")
    case True
    then have el: "truthy element" and st: "stub w" by simp_all
    have c: "orderId ?w' = Suc (orderId w)"
      using True below by (simp add: addPopup_static next_orderId_def)
    have d': "distinct (map fst (popups ?w'))"
      using el st Cons.prems(2) by (rule addPopup_registers(2))
    from Cons.prems(3) c have b': "orderId ?w' + length reqs \<le> 2 ^ 53" by simp
    from Cons.IH [OF rest d' b']
    have ih: "fst (addPopups e reqs ?w') = map (\<lambda>n. JNum (of_nat n)) [orderId ?w' ..< ?end]"
      and le: "orderId ?w' \<le> ?end" by simp_all
    from addPopup_registers(1) [OF el st Cons.prems(2), of e option]
    obtain newPopup where
      look: "map_of (popups ?w') (fst (addPopup e element option w)) = Some newPopup"
      and oid: "get newPopup ''_orderId'' = get (created_popup e element option w) ''_orderId''"
      by blast
    have "get newPopup ''_orderId'' = JNum (of_nat (orderId w))"
      by (simp add: oid created_popup_def keeps orderedOption_default [OF own])
    moreover from le c have "[orderId w ..< ?end] = orderId w # [Suc (orderId w) ..< ?end]"
      by (simp add: upt_conv_Cons)
    ultimately show ?thesis
      using True ih c le look by (simp add: r case_prod_beta Let_def)
  next
    case False
    then have c: "orderId ?w' = orderId w" by (auto simp: addPopup_static)
    have d': "distinct (map fst (popups ?w'))"
      using False Cons.prems(2) by (simp add: addPopup_unguarded_popups)
    from Cons.prems(3) c have b': "orderId ?w' + length reqs \<le> 2 ^ 53" by simp
    from Cons.IH [OF rest d' b']
    have ih: "fst (addPopups e reqs ?w') = map (\<lambda>n. JNum (of_nat n)) [orderId ?w' ..< ?end]"
      and le: "orderId ?w' \<le> ?end" by simp_all
    with False c show ?thesis
      by (auto simp: r case_prod_beta Let_def)
  qed
qed

lemma sorted_wrt_js_less_upt: "sorted_wrt js_less (map (\<lambda>n. JNum (of_nat n)) [a ..< b])"
  by (simp add: sorted_wrt_map sorted_wrt_iff_nth_less)

text \<open>
  Claim C8, as amended. Let the factory copy the \<^verbatim>\<open>_orderId\<close> of the option object it is
  handed into the record, let no option object of the run have an \<^verbatim>\<open>_orderId\<close> of its own,
  and let the counter stay within \<open>2 ^ 53\<close> during the run. Then the records that the
  calls passing the guard register carry the values of the counter from its start on, one
  after the other: each is strictly greater than all registered before it, and none is
  given twice. A call that fails the guard takes no value.
\<close>

theorem addPopup_registers_increasing_orderId:
  assumes "\<forall>element option pr. get (createPopup e element option pr) ''_orderId'' = get option ''_orderId''"
    and "list_all (\<lambda>(element, option). \<not> hasOwnProperty option ''_orderId'') reqs"
    and "distinct (map fst (popups w))"
    and "orderId w + length reqs \<le> 2 ^ 53"
  shows "fst (addPopups e reqs w) =
           map (\<lambda>n. JNum (of_nat n)) [orderId w ..< orderId (snd (addPopups e reqs w))]
       \<and> sorted_wrt js_less (fst (addPopups e reqs w))
       \<and> distinct (fst (addPopups e reqs w))"
proof -
  have eq: "fst (addPopups e reqs w) =
           map (\<lambda>n. JNum (of_nat n)) [orderId w ..< orderId (snd (addPopups e reqs w))]"
    using addPopups_counter [of e reqs w] assms by simp
  have "distinct (map (\<lambda>n. JNum (of_nat n)) [orderId w ..< orderId (snd (addPopups e reqs w))])"
    by (simp add: distinct_map inj_on_def)
  with eq show ?thesis by (simp add: sorted_wrt_js_less_upt)
qed

definition three_adds :: "(jsval \<times> obj) list" where
  "three_adds = [(JObj 1, [(''id'', JStr ''a''), (''zIndex'', JNum 1)]), (JNull, []),
                 (JObj 2, [(''id'', JStr ''b''), (''zIndex'', JNum 1)])]"

theorem addPopup_registers_increasing_orderId_witness:
  "(\<forall>element option pr. get (createPopup example_env element option pr) ''_orderId''
        = get option ''_orderId'')
   \<and> list_all (\<lambda>(element, option). \<not> hasOwnProperty option ''_orderId'') three_adds
   \<and> distinct (map fst (popups (example_world [])))
   \<and> orderId (example_world []) + length three_adds \<le> 2 ^ 53
   \<and> fst (addPopups example_env three_adds (example_world [])) = [JNum 0, JNum 1]
   \<and> sorted_wrt js_less (fst (addPopups example_env three_adds (example_world [])))
   \<and> distinct (fst (addPopups example_env three_adds (example_world [])))"
proof -
  have a: "\<forall>element option pr. get (createPopup example_env element option pr) ''_orderId''
        = get option ''_orderId''"
    by (simp add: example_env_def)
  have b: "list_all (\<lambda>(element, option). \<not> hasOwnProperty option ''_orderId'') three_adds"
    by (simp add: three_adds_def hasOwnProperty_def)
  have c: "distinct (map fst (popups (example_world [])))" by (simp add: example_world_def)
  have d: "orderId (example_world []) + length three_adds \<le> 2 ^ 53"
    by (simp add: example_world_def three_adds_def)
  have v: "fst (addPopups example_env three_adds (example_world [])) = [JNum 0, JNum 1]"
    by (simp add: three_adds_def addPopup_def next_orderId_def removePopup_def
      removePopupImmediately_def sortPopups_def new_Map_def sort_js_def zIndex_cmp_def js_sub_def
      js_half_def strict_eq_def put_def get_def setState_def invoke_def orderedOption_def
      spread_def example_env_def example_world_def Let_def)
  have s: "sorted_wrt js_less (fst (addPopups example_env three_adds (example_world [])))"
    and t: "distinct (fst (addPopups example_env three_adds (example_world [])))"
    using addPopup_registers_increasing_orderId [OF a b c d] by blast+
  from a b c d v s t show ?thesis by blast
qed

definition override_adds :: "(jsval \<times> obj) list" where
  "override_adds = [(JObj 1, [(''id'', JStr ''a''), (''zIndex'', JNum 1), (''_orderId'', JNum 0)]),
                    (JObj 2, [(''id'', JStr ''b''), (''zIndex'', JNum 2), (''_orderId'', JNum 0)])]"

definition plain_adds :: "(jsval \<times> obj) list" where
  "plain_adds = [(JObj 1, [(''id'', JStr ''a''), (''zIndex'', JNum 1)]),
                 (JObj 2, [(''id'', JStr ''b''), (''zIndex'', JNum 2)])]"

text \<open>
  Claim C8 as stated fails twice. The spread \<^verbatim>\<open>{_orderId: PopupStub._orderId++, ...option}\<close>
  lets an \<^verbatim>\<open>_orderId\<close> of the caller's option replace the counter's value, so two adds with
  \<^verbatim>\<open>{_orderId: 0}\<close> both register 0. And a counter that has reached \<open>2 ^ 53\<close> no longer
  grows, so two adds both register \<open>2 ^ 53\<close>.
\<close>

theorem addPopup_orderId_repeats_counterexample:
  "fst (addPopups example_env override_adds (example_world [])) = [JNum 0, JNum 0]
   \<and> \<not> sorted_wrt js_less (fst (addPopups example_env override_adds (example_world [])))
   \<and> \<not> distinct (fst (addPopups example_env override_adds (example_world [])))
   \<and> fst (addPopups example_env plain_adds ((example_world [])\<lparr>orderId := 2 ^ 53\<rparr>))
       = [JNum (2 ^ 53), JNum (2 ^ 53)]
   \<and> \<not> distinct (fst (addPopups example_env plain_adds ((example_world [])\<lparr>orderId := 2 ^ 53\<rparr>)))"
  by (simp add: override_adds_def plain_adds_def addPopup_def next_orderId_def removePopup_def
      removePopupImmediately_def sortPopups_def new_Map_def sort_js_def zIndex_cmp_def js_sub_def
      js_half_def strict_eq_def put_def get_def setState_def invoke_def orderedOption_def
      spread_def example_env_def example_world_def Let_def)

end
